theory Spec2Isabelle
  imports Main "HOL-Library.AList"
begin

section \<open>Strings and numbers of the host language\<close>

text \<open>
  The version module and the \<open>VersionManager\<close> class are TypeScript. Their values are
  modelled as follows.

  \<^item> A string is a \<open>char list\<close>; each \<open>char\<close> stands for the code unit of the same
    value, so the model covers the strings over U+0000 to U+00FF.
  \<^item> A \<open>number\<close> that holds an integer is an \<open>int\<close>. This is exact for the integers that
    JavaScript represents exactly and prints positionally; fractions, infinities and
    integers beyond that range are outside the model. Where the code can produce the
    value NaN (\<open>parseInt\<close>, \<open>Date.getTime\<close>, \<open>calculateImpactScore\<close>) the result type
    is \<open>number\<close>, which adds \<open>NaN\<close>. The two zeros of JavaScript are one.
  \<^item> An object used as a dictionary (\<open>Record<string, T>\<close>) is an association list in
    insertion order: this is the enumeration order of \<open>Object.keys\<close> and
    \<open>Object.entries\<close> for keys that are not array indices, as is every dotted version
    string. Assignment \<open>obj[k] = v\<close> is \<open>AList.update\<close> (overwrite in place, or append),
    \<open>delete obj[k]\<close> is \<open>AList.delete\<close>, reading \<open>obj[k]\<close> is \<open>map_of\<close>.
  \<^item> An optional field is an \<open>option\<close>.
\<close>

datatype number = NaN | Num int

subsection \<open>String primitives\<close>

text \<open>\<open>Array.prototype.join\<close> on an array of strings.\<close>

fun join :: "string \<Rightarrow> string list \<Rightarrow> string" where
  "join sep [] = []"
| "join sep [x] = x"
| "join sep (x # y # ys) = x @ sep @ join sep (y # ys)"

text \<open>
  \<open>String.prototype.split\<close> with a one-character separator: the result is never empty,
  and has one more element than the string has separators.
\<close>

fun split :: "char \<Rightarrow> string \<Rightarrow> string list" where
  "split sep [] = [[]]"
| "split sep (c # cs) =
     (if c = sep then [] # split sep cs
      else (case split sep cs of [] \<Rightarrow> [[c]] | p # ps \<Rightarrow> (c # p) # ps))"

text \<open>\<open>String.prototype.padStart\<close> with a one-character filler.\<close>

definition padStart :: "nat \<Rightarrow> char \<Rightarrow> string \<Rightarrow> string" where
  "padStart n c s = (if n \<le> length s then s else replicate (n - length s) c @ s)"

text \<open>\<open>String.prototype.includes\<close>: does \<open>k\<close> occur in \<open>s\<close> as a contiguous substring?\<close>

fun startsWith :: "string \<Rightarrow> string \<Rightarrow> bool" where
  "startsWith s [] = True"
| "startsWith [] (k # ks) = False"
| "startsWith (c # cs) (k # ks) = (c = k \<and> startsWith cs ks)"

fun includes_str :: "string \<Rightarrow> string \<Rightarrow> bool" where
  "includes_str [] k = (k = [])"
| "includes_str (c # cs) k = (startsWith (c # cs) k \<or> includes_str cs k)"

text \<open>
  \<open>String.prototype.toLowerCase\<close> on the code units of the model: the letters A to Z and
  the upper-case letters of U+00C0 to U+00DE (all but the multiplication sign U+00D7)
  move up by 32.
\<close>

definition toLowerChar :: "char \<Rightarrow> char" where
  "toLowerChar c =
     (let n = (of_char c :: nat) in
      if (65 \<le> n \<and> n \<le> 90) \<or> (192 \<le> n \<and> n \<le> 214) \<or> (216 \<le> n \<and> n \<le> 222)
      then char_of (n + 32) else c)"

definition toLowerCase :: "string \<Rightarrow> string" where
  "toLowerCase s = map toLowerChar s"

subsection \<open>Numbers to strings and back\<close>

text \<open>\<open>Number.prototype.toString\<close> on an integer: decimal digits, with a minus sign.\<close>

definition digitChar :: "nat \<Rightarrow> char" where
  "digitChar d = ''0123456789'' ! d"

fun decimal :: "nat \<Rightarrow> string" where
  "decimal n = (if n < 10 then [digitChar n] else decimal (n div 10) @ [digitChar (n mod 10)])"

declare decimal.simps [simp del]

definition toString :: "int \<Rightarrow> string" where
  "toString i = (if i < 0 then CHR ''-'' # decimal (nat (- i)) else decimal (nat i))"

text \<open>
  \<open>parseInt(string)\<close> with no radix: skip leading white space, read an optional sign,
  switch to radix 16 after a prefix \<open>0x\<close> or \<open>0X\<close>, and read the longest run of digits
  of the radix. No digit gives NaN; the function never throws.
\<close>

definition isWhiteSpace :: "char \<Rightarrow> bool" where
  "isWhiteSpace c = ((of_char c :: nat) \<in> {9, 10, 11, 12, 13, 32, 160})"

definition digitValue :: "char \<Rightarrow> nat option" where
  "digitValue c =
     map_of (zip ''0123456789abcdef'' [0, 1, 2, 3, 4, 5, 6, 7, 8, 9, 10, 11, 12, 13, 14, 15] @
             zip ''ABCDEF'' [10, 11, 12, 13, 14, 15]) c"

definition isDigit :: "nat \<Rightarrow> char \<Rightarrow> bool" where
  "isDigit R c = (case digitValue c of None \<Rightarrow> False | Some v \<Rightarrow> v < R)"

definition digitsValue :: "nat \<Rightarrow> string \<Rightarrow> nat" where
  "digitsValue R Z = foldl (\<lambda>acc c. acc * R + (case digitValue c of None \<Rightarrow> 0 | Some v \<Rightarrow> v)) 0 Z"

definition parseInt :: "string \<Rightarrow> number" where
  "parseInt string =
     (let S = dropWhile isWhiteSpace string;
          sign = (case S of c # _ \<Rightarrow> if c = CHR ''-'' then - 1 else 1 | [] \<Rightarrow> (1 :: int));
          S = (case S of c # cs \<Rightarrow> if c = CHR ''+'' \<or> c = CHR ''-'' then cs else S | [] \<Rightarrow> S);
          hex = (take 2 S = ''0x'' \<or> take 2 S = ''0X'');
          R = (if hex then 16 else 10);
          S = (if hex then drop 2 S else S);
          Z = takeWhile (isDigit R) S
      in if Z = [] then NaN else Num (sign * int (digitsValue R Z)))"

section \<open>The version module\<close>

subsection \<open>formatVersion\<close>

text \<open>The optional parameter \<open>build\<close> is \<open>undefined\<close> when the caller leaves it out.\<close>

definition formatVersion :: "int \<Rightarrow> int \<Rightarrow> int \<Rightarrow> int option \<Rightarrow> string" where
  "formatVersion major minor update build =
     (case build of
        Some b \<Rightarrow>
          toString major @ ''.'' @ padStart 2 CHR ''0'' (toString minor) @ ''.'' @
          padStart 3 CHR ''0'' (toString update) @ ''.'' @ padStart 3 CHR ''0'' (toString b)
      | None \<Rightarrow>
          toString major @ ''.'' @ padStart 2 CHR ''0'' (toString minor) @ ''.'' @
          padStart 3 CHR ''0'' (toString update))"

subsection \<open>Data\<close>

record Release =
  version :: string
  date :: string
  title :: string
  type :: string
  summary :: string
  changes :: "string list"
  technical :: "string list option"
  impactScore :: "number option"

text \<open>
  \<open>VersionInfo\<close> is the interface of the module. The persisted file of an older format
  has no \<open>build\<close> field, so the document record leaves the type of that field open:
  \<open>VersionInfo\<close> has a number there, \<open>VersionData\<close> (the parsed JSON, typed \<open>any\<close> in the
  source) an optional one.
\<close>

record 'b VersionDoc =
  version :: string
  major :: int
  minor :: int
  update :: int
  build :: 'b
  changelog :: "(string \<times> string) list"
  releases :: "(string \<times> Release) list option"

type_synonym VersionInfo = "int VersionDoc"
type_synonym VersionData = "int option VersionDoc"

record ParsedVersion =
  major :: number
  minor :: number
  update :: number
  build :: number

datatype IncrementType = Major | Minor | Update | Build

record ImpactLevel =
  level :: string
  color :: string
  description :: string

subsection \<open>parseVersion and incrementVersion\<close>

text \<open>
  \<open>parts[i] || '0'\<close>: an index past the end reads \<open>undefined\<close>, and both \<open>undefined\<close> and
  the empty string are falsy.
\<close>

definition partOrZero :: "string list \<Rightarrow> nat \<Rightarrow> string" where
  "partOrZero parts i = (if i < length parts \<and> parts ! i \<noteq> [] then parts ! i else ''0'')"

definition parseVersion :: "string \<Rightarrow> ParsedVersion" where
  "parseVersion v =
     (let parts = split CHR ''.'' v in
      \<lparr> ParsedVersion.major = parseInt (partOrZero parts 0),
        ParsedVersion.minor = parseInt (partOrZero parts 1),
        ParsedVersion.update = parseInt (partOrZero parts 2),
        ParsedVersion.build = parseInt (partOrZero parts 3) \<rparr>)"

text \<open>
  \<open>incrementVersion\<close> works on a copy of its argument; its last statement, here
  \<open>reformat\<close>, recomputes the version string from the four numbers, always with four
  parts.
\<close>

definition reformat :: "VersionInfo \<Rightarrow> VersionInfo" where
  "reformat v =
     v\<lparr> VersionDoc.version :=
          formatVersion (VersionDoc.major v) (VersionDoc.minor v) (VersionDoc.update v)
            (Some (VersionDoc.build v)) \<rparr>"

fun incrementVersion :: "VersionInfo \<Rightarrow> IncrementType \<Rightarrow> VersionInfo" where
  "incrementVersion current Major =
     reformat (current\<lparr> VersionDoc.major := VersionDoc.major current + 1,
                        VersionDoc.minor := 0, VersionDoc.update := 0, VersionDoc.build := 0 \<rparr>)"
| "incrementVersion current Minor =
     reformat (current\<lparr> VersionDoc.minor := VersionDoc.minor current + 1,
                        VersionDoc.update := 0, VersionDoc.build := 0 \<rparr>)"
| "incrementVersion current Update =
     reformat (current\<lparr> VersionDoc.update := VersionDoc.update current + 1,
                        VersionDoc.build := 0 \<rparr>)"
| "incrementVersion current Build =
     reformat (current\<lparr> VersionDoc.build := VersionDoc.build current + 1 \<rparr>)"

subsection \<open>Impact scoring\<close>

text \<open>
  The table \<open>typeScores\<close> is an object literal, read at the type of the release. A
  property read finds the four own keys and, through the prototype chain, the names that
  every object inherits from \<open>Object.prototype\<close>; any other key reads \<open>undefined\<close>. An
  inherited name reads a function (for \<open>__proto__\<close>, the prototype object itself), which
  is truthy, so that \<open>|| 0\<close> does not replace it.
\<close>

definition typeScores :: "(string \<times> int) list" where
  "typeScores = [(''major'', 100), (''feature'', 70), (''update'', 40), (''fix'', 20)]"

definition objectPrototypeNames :: "string list" where
  "objectPrototypeNames =
     [''constructor'', ''hasOwnProperty'', ''isPrototypeOf'', ''propertyIsEnumerable'',
      ''toLocaleString'', ''toString'', ''valueOf'', ''__proto__'', ''__defineGetter__'',
      ''__defineSetter__'', ''__lookupGetter__'', ''__lookupSetter__'']"

datatype property = Undefined | OwnNumber int | Inherited

definition typeScoresAt :: "string \<Rightarrow> property" where
  "typeScoresAt key =
     (case map_of typeScores key of
        Some points \<Rightarrow> OwnNumber points
      | None \<Rightarrow> if key \<in> set objectPrototypeNames then Inherited else Undefined)"

text \<open>
  The variable \<open>score\<close> starts as the number 0. Adding a function or an object to a
  number concatenates their texts, so after an inherited name \<open>score\<close> is a string that
  begins with \<open>0\<close> followed by the text of the function or object; every later \<open>+=\<close>
  appends to it. Such a string is not the text of a number, and \<open>Math.min\<close> answers NaN
  for it.
\<close>

datatype accumulator = Total int | Text

fun plusAssign :: "accumulator \<Rightarrow> int \<Rightarrow> accumulator" where
  "plusAssign (Total s) n = Total (s + n)"
| "plusAssign Text n = Text"

definition highImpactKeywords :: "string list" where
  "highImpactKeywords =
     [''security'', ''performance'', ''authentication'', ''database'', ''api'',
      ''integration'', ''ui'', ''ux'', ''accessibility'', ''optimization'',
      ''architecture'', ''framework'', ''migration'', ''breaking'']"

definition allText :: "Release \<Rightarrow> string" where
  "allText release =
     toLowerCase (title release @ '' '' @ summary release @ '' '' @
                  join '' '' (changes release) @ '' '' @
                  (case technical release of None \<Rightarrow> [] | Some t \<Rightarrow> join '' '' t))"

definition calculateImpactScore :: "Release \<Rightarrow> number" where
  "calculateImpactScore release =
     (let score = Total 0;
          score = (case typeScoresAt (type release) of
                     OwnNumber points \<Rightarrow> plusAssign score points
                   | Undefined \<Rightarrow> plusAssign score 0
                   | Inherited \<Rightarrow> Text);
          score = plusAssign score (int (length (changes release)) * 5);
          score = (case technical release of
                     None \<Rightarrow> score
                   | Some t \<Rightarrow> plusAssign score (int (length t) * 3));
          txt = allText release;
          score = foldl (\<lambda>score keyword. if includes_str txt keyword then plusAssign score 10 else score)
                    score highImpactKeywords
      in case score of Total s \<Rightarrow> Num (min s 200) | Text \<Rightarrow> NaN)"

definition getImpactLevel :: "int \<Rightarrow> ImpactLevel" where
  "getImpactLevel score =
     (if score \<ge> 150 then
        \<lparr> level = ''Critical'', color = ''text-red-600 dark:text-red-400'',
          description = ''Major system changes with significant impact'' \<rparr>
      else if score \<ge> 100 then
        \<lparr> level = ''High'', color = ''text-orange-600 dark:text-orange-400'',
          description = ''Important updates affecting core functionality'' \<rparr>
      else if score \<ge> 60 then
        \<lparr> level = ''Medium'', color = ''text-yellow-600 dark:text-yellow-400'',
          description = ''Notable improvements and enhancements'' \<rparr>
      else if score \<ge> 30 then
        \<lparr> level = ''Low'', color = ''text-blue-600 dark:text-blue-400'',
          description = ''Minor fixes and small improvements'' \<rparr>
      else
        \<lparr> level = ''Minimal'', color = ''text-gray-600 dark:text-gray-400'',
          description = ''Small maintenance updates'' \<rparr>)"

subsection \<open>The scoring rule as the specification words it\<close>




section \<open>The version manager\<close>

text \<open>
  \<open>VersionManager\<close> keeps one document in the file \<open>version.json\<close>. The file is the
  state of the model: \<open>None\<close> when it does not exist or cannot be read and parsed, the
  parsed document otherwise. Every operation takes the file and returns the document that
  it hands to \<open>JSON.stringify\<close>; a write is taken to succeed. (JSON has no NaN: where a
  score of that document is NaN, the text in the file has \<open>null\<close>.) The clock (\<open>new Date().toISOString()\<close>) is the parameter
  \<open>now\<close>, and the date parser of the platform (\<open>new Date(s).getTime()\<close>, NaN on a string
  that does not parse) is the parameter \<open>getTime\<close>.
\<close>

record ReleaseInfo =
  title :: string
  summary :: string
  changes :: "string list"
  technical :: "string list option"
  consolidateWithPrevious :: "bool option"

subsection \<open>Migration of the persisted format\<close>

text \<open>
  \<open>migrateVersionFormat\<close> takes the parsed document and returns it as a \<open>VersionInfo\<close>.
  It mutates its argument and returns the same object, so the caller's document is the
  result. A \<open>VersionInfo\<close> handed back to it, or written to the file and parsed again, is
  the document \<open>asData\<close>. The parsed document is taken to have the fields of the old
  format (\<open>version\<close>, \<open>major\<close>, \<open>minor\<close>, \<open>update\<close>, \<open>changelog\<close>) with values of their
  types; \<open>build\<close> and \<open>releases\<close> may be absent.
\<close>

definition asData :: "VersionInfo \<Rightarrow> VersionData" where
  "asData v =
     \<lparr> VersionDoc.version = VersionDoc.version v, major = VersionDoc.major v,
       minor = VersionDoc.minor v, update = VersionDoc.update v,
       build = Some (VersionDoc.build v), changelog = changelog v, releases = releases v \<rparr>"

definition migrateVersionFormat :: "VersionData \<Rightarrow> VersionInfo" where
  "migrateVersionFormat versionData =
     (let build' = (case VersionDoc.build versionData of None \<Rightarrow> 0 | Some b \<Rightarrow> b);
          version' =
            (if VersionDoc.version versionData \<noteq> [] \<and>
                length (split CHR ''.'' (VersionDoc.version versionData)) = 3
             then VersionDoc.version versionData @ ''.000''
             else VersionDoc.version versionData);
          releases' =
            (case releases versionData of
               None \<Rightarrow> None
             | Some rs \<Rightarrow>
                 Some (foldl
                   (\<lambda>migratedReleases (key, release).
                      let newKey = (if length (split CHR ''.'' key) = 3 then key @ ''.000'' else key);
                          migratedRelease =
                            release\<lparr> Release.version :=
                              (if length (split CHR ''.'' (Release.version release)) = 3
                               then Release.version release @ ''.000''
                               else Release.version release) \<rparr>
                      in AList.update newKey migratedRelease migratedReleases)
                   [] rs));
          changelog' =
            foldl
              (\<lambda>migratedChangelog (key, value).
                 let newKey = (if length (split CHR ''.'' key) = 3 then key @ ''.000'' else key)
                 in AList.update newKey value migratedChangelog)
              [] (changelog versionData)
      in \<lparr> VersionDoc.version = version', major = VersionDoc.major versionData,
           minor = VersionDoc.minor versionData, update = VersionDoc.update versionData,
           build = build', changelog = changelog', releases = releases' \<rparr>)"

definition defaultVersion :: VersionInfo where
  "defaultVersion =
     \<lparr> VersionDoc.version = ''0.01.012.000'', major = 0, minor = 1, update = 12, build = 0,
       changelog =
         [(''0.01.012.000'',
           ''Implemented comprehensive version impact scoring to highlight key improvements and system changes'')],
       releases = Some [] \<rparr>"

definition getCurrentVersion :: "VersionData option \<Rightarrow> VersionInfo" where
  "getCurrentVersion file =
     (case file of
        Some versionData \<Rightarrow> migrateVersionFormat versionData
      | None \<Rightarrow> defaultVersion)"

subsection \<open>Creating and consolidating releases\<close>

definition createNewRelease :: "string \<Rightarrow> VersionInfo \<Rightarrow> ReleaseInfo \<Rightarrow> IncrementType \<Rightarrow> VersionInfo" where
  "createNewRelease now versionInfo releaseInfo t =
     (let rs = (case releases versionInfo of None \<Rightarrow> [] | Some rs \<Rightarrow> rs);
          release =
            \<lparr> Release.version = VersionDoc.version versionInfo, date = now,
              title = ReleaseInfo.title releaseInfo,
              type = (if t = Major then ''major'' else if t = Minor then ''feature''
                      else if t = Build then ''fix'' else ''update''),
              summary = ReleaseInfo.summary releaseInfo,
              changes = ReleaseInfo.changes releaseInfo,
              technical = ReleaseInfo.technical releaseInfo,
              impactScore = None \<rparr>;
          release = release\<lparr> impactScore := Some (calculateImpactScore release) \<rparr>
      in versionInfo\<lparr> releases := Some (AList.update (VersionDoc.version versionInfo) release rs) \<rparr>)"

text \<open>
  The merge loop of the consolidation: the set of existing entries is built once, before
  the loop, and every new entry that is not in that set is pushed.
\<close>

definition mergeUnique :: "string list \<Rightarrow> string list \<Rightarrow> string list" where
  "mergeUnique existing new =
     foldl (\<lambda>merged x. if x \<in> set existing then merged else merged @ [x]) existing new"

text \<open>
  \<open>Array.prototype.sort\<close> is stable, and reads a comparator result of NaN as 0. For a
  consistent comparator the result is the one stable arrangement, which insertion sort
  computes. The comparator of the consolidation subtracts two parsed dates; when one of
  them is NaN it need not be consistent and the order is up to the engine, so the
  theorems about the latest release assume that the dates of the stored releases parse.
  The keys that are compared come from \<open>Object.keys\<close> of the same object, so the lookup
  of a release by its key always succeeds.
\<close>

fun insertBy :: "('a \<Rightarrow> 'a \<Rightarrow> int) \<Rightarrow> 'a \<Rightarrow> 'a list \<Rightarrow> 'a list" where
  "insertBy cmp x [] = [x]"
| "insertBy cmp x (y # ys) = (if cmp x y \<le> 0 then x # y # ys else y # insertBy cmp x ys)"

definition sortBy :: "('a \<Rightarrow> 'a \<Rightarrow> int) \<Rightarrow> 'a list \<Rightarrow> 'a list" where
  "sortBy cmp xs = foldr (insertBy cmp) xs []"

definition compareDates :: "(string \<Rightarrow> number) \<Rightarrow> (string \<times> Release) list \<Rightarrow> string \<Rightarrow> string \<Rightarrow> int" where
  "compareDates getTime rs a b =
     (case (map_of rs b, map_of rs a) of
        (Some rb, Some ra) \<Rightarrow>
          (case (getTime (date rb), getTime (date ra)) of
             (Num tb, Num ta) \<Rightarrow> tb - ta
           | _ \<Rightarrow> 0)
      | _ \<Rightarrow> 0)"

text \<open>The update of the latest release in place, before it is moved to its new key.\<close>

definition consolidate :: "string \<Rightarrow> string \<Rightarrow> ReleaseInfo \<Rightarrow> Release \<Rightarrow> Release" where
  "consolidate now newVersion releaseInfo latestRelease =
     (let latestRelease = latestRelease\<lparr> Release.version := newVersion, date := now,
                                         Release.summary := ReleaseInfo.summary releaseInfo \<rparr>;
          latestRelease = latestRelease\<lparr> Release.changes :=
            mergeUnique (Release.changes latestRelease) (ReleaseInfo.changes releaseInfo) \<rparr>;
          latestRelease =
            (case ReleaseInfo.technical releaseInfo of
               None \<Rightarrow> latestRelease
             | Some tech \<Rightarrow>
                 latestRelease\<lparr> Release.technical :=
                   Some (mergeUnique
                     (case Release.technical latestRelease of None \<Rightarrow> [] | Some ts \<Rightarrow> ts) tech) \<rparr>)
      in latestRelease\<lparr> impactScore := Some (calculateImpactScore latestRelease) \<rparr>)"

subsection \<open>The operations of the ledger\<close>

text \<open>
  The block of \<open>updateVersion\<close> that runs when release information is given: consolidate
  with the latest release when that is asked for, a release exists and the titles agree,
  and create a new release otherwise.
\<close>

definition addReleaseInfo ::
  "(string \<Rightarrow> number) \<Rightarrow> string \<Rightarrow> VersionInfo \<Rightarrow> ReleaseInfo \<Rightarrow> IncrementType \<Rightarrow> VersionInfo" where
  "addReleaseInfo getTime now newVersion releaseInfo t =
     (let rs = (case releases newVersion of None \<Rightarrow> [] | Some rs \<Rightarrow> rs);
          newVersion = newVersion\<lparr> releases := Some rs \<rparr>
      in if consolidateWithPrevious releaseInfo = Some True \<and> length (map fst rs) > 0 then
           (case sortBy (compareDates getTime rs) (map fst rs) of
              [] \<Rightarrow> createNewRelease now newVersion releaseInfo t
            | latestReleaseKey # _ \<Rightarrow>
                (case map_of rs latestReleaseKey of
                   None \<Rightarrow> createNewRelease now newVersion releaseInfo t
                 | Some latestRelease \<Rightarrow>
                     if Release.title latestRelease = ReleaseInfo.title releaseInfo then
                       (let latestRelease =
                              consolidate now (VersionDoc.version newVersion) releaseInfo latestRelease;
                            rs = AList.update latestReleaseKey latestRelease rs;
                            rs = (if latestReleaseKey \<noteq> VersionDoc.version newVersion
                                  then AList.delete latestReleaseKey
                                         (AList.update (VersionDoc.version newVersion) latestRelease rs)
                                  else rs)
                        in newVersion\<lparr> releases := Some rs \<rparr>)
                     else createNewRelease now newVersion releaseInfo t))
         else createNewRelease now newVersion releaseInfo t)"

text \<open>
  \<open>updateVersion\<close> returns the document it wrote: \<open>finalVersion\<close> and \<open>newVersion\<close> are
  the same object after the last migration. The second component is the new content of
  the file.
\<close>

definition updateVersion ::
  "(string \<Rightarrow> number) \<Rightarrow> string \<Rightarrow> VersionData option \<Rightarrow> IncrementType \<Rightarrow> string \<Rightarrow>
   ReleaseInfo option \<Rightarrow> VersionInfo \<times> VersionData" where
  "updateVersion getTime now file t changelogEntry releaseInfo =
     (let currentVersion = getCurrentVersion file;
          newVersion = incrementVersion currentVersion t;
          newVersion = newVersion\<lparr> changelog :=
            AList.update (VersionDoc.version newVersion) changelogEntry (changelog newVersion) \<rparr>;
          newVersion =
            (case releaseInfo of
               None \<Rightarrow> newVersion
             | Some info \<Rightarrow> addReleaseInfo getTime now newVersion info t);
          finalVersion = migrateVersionFormat (asData newVersion)
      in (finalVersion, asData finalVersion))"

definition addChangelogEntry :: "VersionData option \<Rightarrow> string \<Rightarrow> VersionData" where
  "addChangelogEntry file changelogEntry =
     (let currentVersion = getCurrentVersion file;
          currentVersion = currentVersion\<lparr> changelog :=
            AList.update (VersionDoc.version currentVersion) changelogEntry (changelog currentVersion) \<rparr>
      in asData currentVersion)"

definition addRelease :: "VersionData option \<Rightarrow> Release \<Rightarrow> VersionData" where
  "addRelease file release =
     (let currentVersion = getCurrentVersion file;
          rs = (case releases currentVersion of None \<Rightarrow> [] | Some rs \<Rightarrow> rs);
          currentVersion = currentVersion\<lparr> releases :=
            Some (AList.update (Release.version release) release rs) \<rparr>
      in asData currentVersion)"

section \<open>Vocabulary of the statements\<close>

text \<open>
  The releases of a document, with an absent map read as empty; the entries of an
  optional list, with an absent list read as empty; and the comparison of two releases
  by their parsed dates, which holds only when both dates parse.
\<close>

definition releasesOf :: "'b VersionDoc \<Rightarrow> (string \<times> Release) list" where
  "releasesOf v = (case releases v of None \<Rightarrow> [] | Some rs \<Rightarrow> rs)"

definition entries :: "string list option \<Rightarrow> string list" where
  "entries xs = (case xs of None \<Rightarrow> [] | Some ys \<Rightarrow> ys)"

definition strictlyOlder :: "(string \<Rightarrow> number) \<Rightarrow> Release \<Rightarrow> Release \<Rightarrow> bool" where
  "strictlyOlder getTime r l =
     (case (getTime (date r), getTime (date l)) of (Num a, Num b) \<Rightarrow> a < b | _ \<Rightarrow> False)"

definition notNewer :: "(string \<Rightarrow> number) \<Rightarrow> Release \<Rightarrow> Release \<Rightarrow> bool" where
  "notNewer getTime r l =
     (case (getTime (date r), getTime (date l)) of (Num a, Num b) \<Rightarrow> a \<le> b | _ \<Rightarrow> False)"

text \<open>
  A version string is 4-part when it has four dot-separated parts. A parsed document is
  already migrated when \<open>build\<close> is present and the top-level version, every changelog
  key, every release key and every nested release version is 4-part. The keys of an
  object are distinct.
\<close>

definition fourParts :: "string \<Rightarrow> bool" where
  "fourParts key = (length (split CHR ''.'' key) = 4)"

definition alreadyMigrated :: "VersionData \<Rightarrow> bool" where
  "alreadyMigrated doc =
     (VersionDoc.build doc \<noteq> None \<and> fourParts (VersionDoc.version doc) \<and>
      distinct (map fst (changelog doc)) \<and> list_all (\<lambda>(key, value). fourParts key) (changelog doc) \<and>
      (case releases doc of
         None \<Rightarrow> True
       | Some rs \<Rightarrow>
           distinct (map fst rs) \<and>
           list_all (\<lambda>(key, release). fourParts key \<and> fourParts (Release.version release)) rs))"

text \<open>
  The release that the specification describes as the result of a consolidation, and the
  release that it describes as newly created.
\<close>

definition mergedRelease :: "string \<Rightarrow> string \<Rightarrow> ReleaseInfo \<Rightarrow> Release \<Rightarrow> Release" where
  "mergedRelease now next info old =
     (let content = old\<lparr>
            Release.version := next, date := now,
            Release.summary := ReleaseInfo.summary info,
            Release.changes :=
              Release.changes old @
              filter (\<lambda>c. c \<notin> set (Release.changes old)) (ReleaseInfo.changes info),
            Release.technical :=
              (case ReleaseInfo.technical info of
                 None \<Rightarrow> Release.technical old
               | Some tech \<Rightarrow>
                   (let ts = (case Release.technical old of None \<Rightarrow> [] | Some ts \<Rightarrow> ts)
                    in Some (ts @ filter (\<lambda>c. c \<notin> set ts) tech))) \<rparr>
      in content\<lparr> impactScore := Some (calculateImpactScore content) \<rparr>)"

definition createdRelease :: "string \<Rightarrow> string \<Rightarrow> ReleaseInfo \<Rightarrow> IncrementType \<Rightarrow> Release" where
  "createdRelease now next info t =
     (let content =
            \<lparr> Release.version = next, date = now, title = ReleaseInfo.title info,
              type = (case t of Major \<Rightarrow> ''major'' | Minor \<Rightarrow> ''feature''
                      | Build \<Rightarrow> ''fix'' | Update \<Rightarrow> ''update''),
              summary = ReleaseInfo.summary info, changes = ReleaseInfo.changes info,
              technical = ReleaseInfo.technical info, impactScore = None \<rparr>
      in content\<lparr> impactScore := Some (calculateImpactScore content) \<rparr>)"

section \<open>Example documents\<close>

text \<open>
  \<open>sampleGetTime\<close> gives the milliseconds since the epoch of the three dates that the
  examples use, and NaN for any other string.
\<close>

definition sampleGetTime :: "string \<Rightarrow> number" where
  "sampleGetTime s =
     (case map_of [(''2025-01-01T00:00:00.000Z'', 1735689600000),
                   (''2025-01-02T00:00:00.000Z'', 1735776000000),
                   (''2025-01-03T00:00:00.000Z'', 1735862400000)] s of
        None \<Rightarrow> NaN | Some t \<Rightarrow> Num t)"

definition fixLogin :: "string \<Rightarrow> string \<Rightarrow> Release" where
  "fixLogin v d =
     \<lparr> Release.version = v, date = d, title = ''Fix login'', type = ''fix'', summary = ''S1'',
       changes = [''A''], technical = None, impactScore = Some (Num 25) \<rparr>"

definition plannedWork :: Release where
  "plannedWork =
     \<lparr> Release.version = ''0.01.012.002'', date = ''2025-01-01T00:00:00.000Z'',
       title = ''Planned work'', type = ''update'', summary = ''To be done'',
       changes = [''P''], technical = None, impactScore = Some (Num 45) \<rparr>"

definition ledgerOne :: VersionData where
  "ledgerOne =
     \<lparr> VersionDoc.version = ''0.01.012.001'', major = 0, minor = 1, update = 12, build = Some 1,
       changelog = [(''0.01.012.001'', ''First fix'')],
       releases = Some [(''0.01.012.001'', fixLogin ''0.01.012.001'' ''2025-01-01T00:00:00.000Z'')] \<rparr>"

definition ledgerTwo :: VersionData where
  "ledgerTwo =
     \<lparr> VersionDoc.version = ''0.01.012.002'', major = 0, minor = 1, update = 12, build = Some 2,
       changelog = [(''0.01.012.001'', ''First fix''), (''0.01.012.002'', ''Second fix'')],
       releases = Some
         [(''0.01.012.001'', fixLogin ''0.01.012.001'' ''2025-01-01T00:00:00.000Z''),
          (''0.01.012.002'', fixLogin ''0.01.012.002'' ''2025-01-02T00:00:00.000Z'')] \<rparr>"

definition ledgerAhead :: VersionData where
  "ledgerAhead =
     \<lparr> VersionDoc.version = ''0.01.012.001'', major = 0, minor = 1, update = 12, build = Some 1,
       changelog = [(''0.01.012.001'', ''First fix'')],
       releases = Some [(''0.01.012.002'', plannedWork)] \<rparr>"

definition loginInfo :: ReleaseInfo where
  "loginInfo =
     \<lparr> ReleaseInfo.title = ''Fix login'', summary = ''S2'', changes = [''A'', ''B''],
       technical = None, consolidateWithPrevious = Some True \<rparr>"

definition unrelatedInfo :: ReleaseInfo where
  "unrelatedInfo =
     \<lparr> ReleaseInfo.title = ''Unrelated fix'', summary = ''S2'', changes = [''A'', ''B''],
       technical = None, consolidateWithPrevious = Some True \<rparr>"

definition plainInfo :: ReleaseInfo where
  "plainInfo =
     \<lparr> ReleaseInfo.title = ''Unrelated fix'', summary = ''S2'', changes = [''A'', ''B''],
       technical = None, consolidateWithPrevious = None \<rparr>"

definition legacyRelease :: Release where
  "legacyRelease = fixLogin ''1.02.003'' ''2025-01-01T00:00:00.000Z''"

section \<open>Auxiliary definitions for the proofs\<close>

text \<open>
  The migration rewrites a key with three parts; \<open>rebuild\<close> is the loop that fills a fresh
  object from the entries of an old one. A document is \<open>migrated\<close> when no key and no
  version in it has three parts and its keys are distinct; \<open>moveRelease\<close> is the
  re-keying step of the consolidation.
\<close>

definition decimalDigits :: "char set" where
  "decimalDigits = set ''0123456789''"

definition threeParts :: "string \<Rightarrow> bool" where
  "threeParts key = (length (split CHR ''.'' key) = 3)"

definition migrateKey :: "string \<Rightarrow> string" where
  "migrateKey key = (if threeParts key then key @ ''.000'' else key)"

definition migrateRelease :: "Release \<Rightarrow> Release" where
  "migrateRelease release = release\<lparr> Release.version := migrateKey (Release.version release) \<rparr>"

definition rebuild :: "('k \<Rightarrow> 'k) \<Rightarrow> ('v \<Rightarrow> 'v) \<Rightarrow> ('k \<times> 'v) list \<Rightarrow> ('k \<times> 'v) list \<Rightarrow> ('k \<times> 'v) list" where
  "rebuild f g acc xs = foldl (\<lambda>m (k, v). AList.update (f k) (g v) m) acc xs"

definition cleanReleases :: "(string \<times> Release) list \<Rightarrow> bool" where
  "cleanReleases rs =
     (distinct (map fst rs) \<and>
      list_all (\<lambda>(key, release). \<not> threeParts key \<and> \<not> threeParts (Release.version release)) rs)"

definition cleanChangelog :: "(string \<times> string) list \<Rightarrow> bool" where
  "cleanChangelog cl = (distinct (map fst cl) \<and> list_all (\<lambda>(key, value). \<not> threeParts key) cl)"

definition migrated :: "VersionInfo \<Rightarrow> bool" where
  "migrated v =
     (\<not> threeParts (VersionDoc.version v) \<and> cleanChangelog (changelog v) \<and>
      (case releases v of None \<Rightarrow> True | Some rs \<Rightarrow> cleanReleases rs))"

definition moveRelease ::
  "string \<Rightarrow> string \<Rightarrow> Release \<Rightarrow> (string \<times> Release) list \<Rightarrow> (string \<times> Release) list" where
  "moveRelease oldKey newKey release rs =
     (if oldKey \<noteq> newKey
      then AList.delete oldKey (AList.update newKey release (AList.update oldKey release rs))
      else AList.update oldKey release rs)"

section \<open>Properties of the version module\<close>

subsection \<open>Substrings\<close>

lemma startsWith_iff: "startsWith s k \<longleftrightarrow> (\<exists>q. s = k @ q)"
  by (induction s k rule: startsWith.induct) auto

lemma includes_str_iff: "includes_str s k \<longleftrightarrow> (\<exists>p q. s = p @ k @ q)"
proof (induction s)
  case Nil
  then show ?case by simp
next
  case (Cons c cs)
  show ?case
  proof
    assume "includes_str (c # cs) k"
    then consider "startsWith (c # cs) k" | "includes_str cs k" by auto
    then show "\<exists>p q. c # cs = p @ k @ q"
    proof cases
      case 1
      then obtain q where "c # cs = k @ q" by (auto simp: startsWith_iff)
      then have "c # cs = [] @ k @ q" by simp
      then show ?thesis by blast
    next
      case 2
      with Cons.IH obtain p q where "cs = p @ k @ q" by auto
      then have "c # cs = (c # p) @ k @ q" by simp
      then show ?thesis by blast
    qed
  next
    assume "\<exists>p q. c # cs = p @ k @ q"
    then obtain p q where pq: "c # cs = p @ k @ q" by auto
    show "includes_str (c # cs) k"
    proof (cases p)
      case Nil
      with pq have "startsWith (c # cs) k" by (auto simp: startsWith_iff)
      then show ?thesis by simp
    next
      case (Cons d ds)
      with pq have "cs = ds @ k @ q" by simp
      with Cons.IH have "includes_str cs k" by blast
      then show ?thesis by simp
    qed
  qed
qed

subsection \<open>Decimal numerals\<close>


lemma less_ten_cases:
  "(d::nat) < 10 \<Longrightarrow> d = 0 \<or> d = 1 \<or> d = 2 \<or> d = 3 \<or> d = 4 \<or> d = 5 \<or> d = 6 \<or> d = 7 \<or> d = 8 \<or> d = 9"
  by arith

lemma digitChar_values:
  "digitChar 0 = CHR ''0''" "digitChar (Suc 0) = CHR ''1''" "digitChar 2 = CHR ''2''"
  "digitChar 3 = CHR ''3''" "digitChar 4 = CHR ''4''" "digitChar 5 = CHR ''5''"
  "digitChar 6 = CHR ''6''" "digitChar 7 = CHR ''7''" "digitChar 8 = CHR ''8''"
  "digitChar 9 = CHR ''9''"
  by (simp_all add: digitChar_def)

lemma decimalDigits_cases:
  "c \<in> decimalDigits \<Longrightarrow> c = CHR ''0'' \<or> c = CHR ''1'' \<or> c = CHR ''2'' \<or> c = CHR ''3'' \<or> c = CHR ''4''
     \<or> c = CHR ''5'' \<or> c = CHR ''6'' \<or> c = CHR ''7'' \<or> c = CHR ''8'' \<or> c = CHR ''9''"
  by (simp add: decimalDigits_def)

lemma digitValue_values:
  "digitValue CHR ''0'' = Some 0" "digitValue CHR ''1'' = Some 1" "digitValue CHR ''2'' = Some 2"
  "digitValue CHR ''3'' = Some 3" "digitValue CHR ''4'' = Some 4" "digitValue CHR ''5'' = Some 5"
  "digitValue CHR ''6'' = Some 6" "digitValue CHR ''7'' = Some 7" "digitValue CHR ''8'' = Some 8"
  "digitValue CHR ''9'' = Some 9"
  by (simp_all add: digitValue_def)

lemma digitChar_decimal: "d < 10 \<Longrightarrow> digitChar d \<in> decimalDigits"
  by (drule less_ten_cases) (elim disjE, simp_all add: digitChar_values decimalDigits_def)

lemma digitValue_digitChar: "d < 10 \<Longrightarrow> digitValue (digitChar d) = Some d"
  by (drule less_ten_cases) (elim disjE, simp_all add: digitChar_values digitValue_values)

lemma decimalDigits_props:
  assumes "c \<in> decimalDigits"
  shows "isDigit 10 c" and "\<not> isWhiteSpace c" and "c \<noteq> CHR ''+''" and "c \<noteq> CHR ''-''"
    and "c \<noteq> CHR ''.''" and "c \<noteq> CHR ''x''" and "c \<noteq> CHR ''X''"
  using decimalDigits_cases [OF assms]
  by (elim disjE; simp add: isDigit_def digitValue_values isWhiteSpace_def)+
lemma decimal_nonempty: "decimal n \<noteq> []"
  by (subst decimal.simps) simp

lemma set_decimal: "set (decimal n) \<subseteq> decimalDigits"
proof (induction n rule: decimal.induct)
  case (1 n)
  show ?case
  proof (cases "n < 10")
    case True
    then show ?thesis by (subst decimal.simps) (simp add: digitChar_decimal)
  next
    case False
    with 1 show ?thesis by (subst decimal.simps) (simp add: digitChar_decimal)
  qed
qed

lemma digitsValue_snoc:
  "digitsValue R (Z @ [c]) = digitsValue R Z * R + (case digitValue c of None \<Rightarrow> 0 | Some v \<Rightarrow> v)"
  by (simp add: digitsValue_def)

lemma digitsValue_decimal: "digitsValue 10 (decimal n) = n"
proof (induction n rule: decimal.induct)
  case (1 n)
  show ?case
  proof (cases "n < 10")
    case True
    then show ?thesis
      by (subst decimal.simps) (simp add: digitsValue_def digitValue_digitChar)
  next
    case False
    with 1 have "digitsValue 10 (decimal (n div 10)) = n div 10" by simp
    with False show ?thesis
      by (subst decimal.simps) (simp add: digitsValue_snoc digitValue_digitChar)
  qed
qed

lemma foldl_zeros:
  "foldl (\<lambda>acc c. acc * R + (case digitValue c of None \<Rightarrow> 0 | Some v \<Rightarrow> v)) 0 (replicate k CHR ''0'') = 0"
  by (induction k) (simp_all add: digitValue_def)

lemma digitsValue_zeros: "digitsValue R (replicate k CHR ''0'' @ Z) = digitsValue R Z"
  by (simp add: digitsValue_def foldl_zeros)

lemma parseInt_decimal:
  assumes "Z \<noteq> []" and "set Z \<subseteq> decimalDigits"
  shows "parseInt Z = Num (int (digitsValue 10 Z))"
proof -
  from assms obtain c cs where Z: "Z = c # cs" by (cases Z) auto
  with assms have c: "c \<in> decimalDigits" by simp
  have nohex: "take 2 Z \<noteq> ''0x'' \<and> take 2 Z \<noteq> ''0X''"
  proof (cases cs)
    case Nil
    with Z show ?thesis by simp
  next
    case (Cons e es)
    with Z assms have "e \<in> decimalDigits" by simp
    then have "e \<noteq> CHR ''x''" "e \<noteq> CHR ''X''" by (simp_all add: decimalDigits_props)
    with Z Cons show ?thesis by simp
  qed
  have all: "takeWhile (isDigit 10) Z = Z"
    using assms(2) by (auto simp: takeWhile_eq_all_conv decimalDigits_props)
  have ws: "dropWhile isWhiteSpace Z = Z"
    using Z c by (simp add: decimalDigits_props)
  have sgn: "(case Z of [] \<Rightarrow> (1::int) | c # _ \<Rightarrow> if c = CHR ''-'' then - 1 else 1) = 1"
    using Z c by (simp add: decimalDigits_props)
  have rest: "(case Z of [] \<Rightarrow> Z | c # cs \<Rightarrow> if c = CHR ''+'' \<or> c = CHR ''-'' then cs else Z) = Z"
    using Z c by (simp add: decimalDigits_props)
  show ?thesis
    unfolding parseInt_def Let_def ws sgn rest
    using nohex by (simp add: all assms(1))
qed

subsection \<open>Formatting and parsing\<close>

lemma split_no_sep: "sep \<notin> set A \<Longrightarrow> split sep A = [A]"
  by (induction A) auto

lemma split_append_sep: "sep \<notin> set A \<Longrightarrow> split sep (A @ sep # rest) = A # split sep rest"
  by (induction A) auto

lemma length_split: "length (split sep s) = Suc (length (filter (\<lambda>c. c = sep) s))"
  by (induction s) (auto split: list.splits)

lemma padded_decimal:
  "padStart k CHR ''0'' (decimal n) \<noteq> []"
  "set (padStart k CHR ''0'' (decimal n)) \<subseteq> decimalDigits"
  "digitsValue 10 (padStart k CHR ''0'' (decimal n)) = n"
  using set_decimal [of n]
  by (auto simp: padStart_def decimal_nonempty digitsValue_zeros digitsValue_decimal decimalDigits_def)

lemma parseInt_padded: "parseInt (padStart k CHR ''0'' (decimal n)) = Num (int n)"
  by (simp add: parseInt_decimal padded_decimal)

lemma parseInt_decimal_nat: "parseInt (decimal n) = Num (int n)"
  using parseInt_padded [of 0 n] by (simp add: padStart_def)

lemma dot_free:
  "CHR ''.'' \<notin> set (decimal n)" "CHR ''.'' \<notin> set (padStart k CHR ''0'' (decimal n))"
  using set_decimal [of n] padded_decimal(2) [of k n] decimalDigits_props(5) by blast+

lemma toString_nat: "toString (int n) = decimal n"
  by (simp add: toString_def)

lemma split_format3:
  "split CHR ''.'' (formatVersion (int a) (int b) (int c) None) =
     [decimal a, padStart 2 CHR ''0'' (decimal b), padStart 3 CHR ''0'' (decimal c)]"
  by (simp add: formatVersion_def toString_nat split_append_sep split_no_sep dot_free)

lemma split_format4:
  "split CHR ''.'' (formatVersion (int a) (int b) (int c) (Some (int d))) =
     [decimal a, padStart 2 CHR ''0'' (decimal b), padStart 3 CHR ''0'' (decimal c),
      padStart 3 CHR ''0'' (decimal d)]"
  by (simp add: formatVersion_def toString_nat split_append_sep split_no_sep dot_free)

lemma parseInt_zero: "parseInt ''0'' = Num 0"
  by code_simp

text \<open>
  Claim C6. For all non-negative integers major, minor, update and build, parsing the
  3-part formatted version gives back the three components with build 0, and parsing the
  4-part formatted version gives back all four. The components are arbitrary naturals,
  so they may be wider than the pad widths 2, 3 and 3.
\<close>

theorem parse_format_roundtrip:
  "parseVersion (formatVersion (int a) (int b) (int c) None) =
     \<lparr> ParsedVersion.major = Num (int a), minor = Num (int b), update = Num (int c), build = Num 0 \<rparr>
   \<and> parseVersion (formatVersion (int a) (int b) (int c) (Some (int d))) =
     \<lparr> ParsedVersion.major = Num (int a), minor = Num (int b), update = Num (int c),
       build = Num (int d) \<rparr>"
  by (simp add: parseVersion_def split_format3 split_format4 partOrZero_def padded_decimal
      decimal_nonempty parseInt_padded parseInt_decimal_nat parseInt_zero)


lemma toString_dot_free: "CHR ''.'' \<notin> set (toString i)"
  using dot_free(1) by (simp add: toString_def)

lemma padStart_dot_free: "CHR ''.'' \<notin> set s \<Longrightarrow> CHR ''.'' \<notin> set (padStart k CHR ''0'' s)"
  by (simp add: padStart_def)

lemma split_formatVersion4:
  "split CHR ''.'' (formatVersion a b c (Some d)) =
     [toString a, padStart 2 CHR ''0'' (toString b), padStart 3 CHR ''0'' (toString c),
      padStart 3 CHR ''0'' (toString d)]"
  by (simp add: formatVersion_def split_append_sep split_no_sep toString_dot_free padStart_dot_free)

lemma length_split_formatVersion4: "length (split CHR ''.'' (formatVersion a b c (Some d))) = 4"
  by (simp add: split_formatVersion4)

text \<open>
  Claim C5. For every version value, an increment of kind build adds one to build and
  keeps major, minor and update; kind update adds one to update, resets build and keeps
  major and minor; kind minor adds one to minor, resets update and build and keeps
  major; kind major adds one to major and resets the other three. In every case the
  version string of the result is the 4-part formatted form of the four resulting
  components, and it has four dot-separated parts.
\<close>

theorem incrementVersion_rules:
  "(let n = incrementVersion v Build in
      VersionDoc.major n = VersionDoc.major v \<and> VersionDoc.minor n = VersionDoc.minor v \<and>
      VersionDoc.update n = VersionDoc.update v \<and> VersionDoc.build n = VersionDoc.build v + 1)
   \<and> (let n = incrementVersion v Update in
      VersionDoc.major n = VersionDoc.major v \<and> VersionDoc.minor n = VersionDoc.minor v \<and>
      VersionDoc.update n = VersionDoc.update v + 1 \<and> VersionDoc.build n = 0)
   \<and> (let n = incrementVersion v Minor in
      VersionDoc.major n = VersionDoc.major v \<and> VersionDoc.minor n = VersionDoc.minor v + 1 \<and>
      VersionDoc.update n = 0 \<and> VersionDoc.build n = 0)
   \<and> (let n = incrementVersion v Major in
      VersionDoc.major n = VersionDoc.major v + 1 \<and> VersionDoc.minor n = 0 \<and>
      VersionDoc.update n = 0 \<and> VersionDoc.build n = 0)
   \<and> (\<forall>t. let n = incrementVersion v t in
      VersionDoc.version n =
        formatVersion (VersionDoc.major n) (VersionDoc.minor n) (VersionDoc.update n)
          (Some (VersionDoc.build n))
      \<and> length (split CHR ''.'' (VersionDoc.version n)) = 4)"
proof -
  have "\<And>t. let n = incrementVersion v t in
      VersionDoc.version n =
        formatVersion (VersionDoc.major n) (VersionDoc.minor n) (VersionDoc.update n)
          (Some (VersionDoc.build n))
      \<and> length (split CHR ''.'' (VersionDoc.version n)) = 4"
    subgoal for t
      by (cases t) (simp_all add: reformat_def Let_def length_split_formatVersion4)
    done
  then show ?thesis
    by (simp add: reformat_def Let_def length_split_formatVersion4)
qed

text \<open>
  Claim C9. The impact level is assigned by closed lower bounds: a score of at least 150
  is Critical, from 100 up to 149 High, from 60 up to 99 Medium, from 30 up to 59 Low,
  and anything below 30 Minimal. A score on a boundary belongs to the higher tier.
\<close>

theorem getImpactLevel_thresholds:
  "(150 \<le> score \<longrightarrow> level (getImpactLevel score) = ''Critical'')
   \<and> (100 \<le> score \<and> score < 150 \<longrightarrow> level (getImpactLevel score) = ''High'')
   \<and> (60 \<le> score \<and> score < 100 \<longrightarrow> level (getImpactLevel score) = ''Medium'')
   \<and> (30 \<le> score \<and> score < 60 \<longrightarrow> level (getImpactLevel score) = ''Low'')
   \<and> (score < 30 \<longrightarrow> level (getImpactLevel score) = ''Minimal'')"
  by (simp add: getImpactLevel_def)

text \<open>The thresholds at the boundaries and next to them; exactly 100 is High.\<close>

theorem getImpactLevel_thresholds_witness:
  "level (getImpactLevel 150) = ''Critical'' \<and> level (getImpactLevel 100) = ''High''
   \<and> level (getImpactLevel 149) = ''High'' \<and> level (getImpactLevel 60) = ''Medium''
   \<and> level (getImpactLevel 99) = ''Medium'' \<and> level (getImpactLevel 30) = ''Low''
   \<and> level (getImpactLevel 59) = ''Low'' \<and> level (getImpactLevel 29) = ''Minimal''
   \<and> level (getImpactLevel (- 5)) = ''Minimal''"
  using getImpactLevel_thresholds [of 150] getImpactLevel_thresholds [of 100]
    getImpactLevel_thresholds [of 149] getImpactLevel_thresholds [of 60]
    getImpactLevel_thresholds [of 99] getImpactLevel_thresholds [of 30]
    getImpactLevel_thresholds [of 59] getImpactLevel_thresholds [of 29]
    getImpactLevel_thresholds [of "- 5"]
  by simp


subsection \<open>Scoring\<close>


lemma foldl_keywords_Text:
  "foldl (\<lambda>score keyword. if P keyword then plusAssign score 10 else score) Text ks = Text"
  by (induction ks) simp_all


lemma typeScoresAt_inherited: "t \<in> set objectPrototypeNames \<Longrightarrow> typeScoresAt t = Inherited"
  by (auto simp: typeScoresAt_def typeScores_def objectPrototypeNames_def)


text \<open>For a type that is the name of an inherited property the result is NaN.\<close>

lemma calculateImpactScore_inherited:
  assumes "Release.type release \<in> set objectPrototypeNames"
  shows "calculateImpactScore release = NaN"
  unfolding calculateImpactScore_def Let_def typeScoresAt_inherited [OF assms]
  by (cases "Release.technical release") (simp_all add: foldl_keywords_Text)







subsection \<open>Lenient parsing\<close>

lemma partOrZero_take:
  "i < n \<Longrightarrow> partOrZero (take n parts) i = partOrZero parts i"
  by (simp add: partOrZero_def)

lemma parseVersion_take:
  "parseVersion v =
     (let parts = take 4 (split CHR ''.'' v) in
      \<lparr> ParsedVersion.major = parseInt (partOrZero parts 0),
        minor = parseInt (partOrZero parts 1),
        update = parseInt (partOrZero parts 2),
        build = parseInt (partOrZero parts 3) \<rparr>)"
  by (simp add: parseVersion_def Let_def partOrZero_take)

text \<open>
  Claim C10. The result of parseVersion depends only on the first four dot-separated
  segments of its input: two strings with the same first four segments parse to the same
  value, and the fifth segment of \<open>1.2.3.4.5\<close> is ignored.
\<close>

theorem parseVersion_first_four:
  "(take 4 (split CHR ''.'' v) = take 4 (split CHR ''.'' w) \<longrightarrow> parseVersion v = parseVersion w)
   \<and> parseVersion ''1.2.3.4.5'' =
       \<lparr> ParsedVersion.major = Num 1, minor = Num 2, update = Num 3, build = Num 4 \<rparr>"
proof -
  have "parseVersion ''1.2.3.4.5'' =
       \<lparr> ParsedVersion.major = Num 1, minor = Num 2, update = Num 3, build = Num 4 \<rparr>"
    by code_simp
  then show ?thesis
    by (simp add: parseVersion_take [of v] parseVersion_take [of w])
qed

text \<open>Two inputs that differ only after the fourth segment.\<close>

theorem parseVersion_first_four_witness:
  "take 4 (split CHR ''.'' ''7.08.009.010.the.rest'') = take 4 (split CHR ''.'' ''7.08.009.010'')
   \<and> parseVersion ''7.08.009.010.the.rest'' = parseVersion ''7.08.009.010''"
proof -
  have h: "take 4 (split CHR ''.'' ''7.08.009.010.the.rest'') = take 4 (split CHR ''.'' ''7.08.009.010'')"
    by simp
  with parseVersion_first_four [of "''7.08.009.010.the.rest''" "''7.08.009.010''"]
  show ?thesis by blast
qed

lemma parseInt_no_digit:
  assumes "\<not> isWhiteSpace c" "c \<noteq> CHR ''+''" "c \<noteq> CHR ''-''" "\<not> isDigit 10 c"
  shows "parseInt (c # cs) = NaN"
proof -
  have "c \<noteq> CHR ''0''"
    using assms(4) by (auto simp: isDigit_def digitValue_values)
  with assms show ?thesis
    by (simp add: parseInt_def Let_def)
qed

text \<open>
  Claim C3 says that a segment that is present but not numeric defaults to 0, so that
  \<open>a.b.c\<close> parses to four zeros. The code passes such a segment to \<open>parseInt\<close>, which
  answers NaN: only the missing fourth segment of \<open>a.b.c\<close> becomes 0.
\<close>

theorem parseVersion_non_numeric_counterexample:
  "parseVersion ''a.b.c'' =
     \<lparr> ParsedVersion.major = NaN, minor = NaN, update = NaN, build = Num 0 \<rparr>
   \<and> parseVersion ''a.b.c'' \<noteq>
     \<lparr> ParsedVersion.major = Num 0, minor = Num 0, update = Num 0, build = Num 0 \<rparr>"
  by code_simp

text \<open>
  Claim C3, amended. For every input string, parseVersion returns a value (none of its
  steps can throw); each of the four segments that is missing or empty defaults to 0,
  and each segment that is present and not empty is read by \<open>parseInt\<close>. A segment
  whose first character is neither white space, a sign nor a decimal digit is read as
  NaN, not as 0.
\<close>

theorem parseVersion_segments:
  "(let parts = split CHR ''.'' v;
        seg = (\<lambda>i. if i < length parts \<and> parts ! i \<noteq> [] then parseInt (parts ! i) else Num 0)
    in parseVersion v =
         \<lparr> ParsedVersion.major = seg 0, minor = seg 1, update = seg 2, build = seg 3 \<rparr>)
   \<and> (\<not> isWhiteSpace c \<and> c \<noteq> CHR ''+'' \<and> c \<noteq> CHR ''-'' \<and> \<not> isDigit 10 c
        \<longrightarrow> parseInt (c # cs) = NaN)"
  by (simp add: parseVersion_def Let_def partOrZero_def parseInt_zero parseInt_no_digit)


text \<open>A version whose second segment is a letter, and whose last two are missing.\<close>

theorem parseVersion_segments_witness:
  "parseVersion ''1.x'' =
     \<lparr> ParsedVersion.major = Num 1, minor = NaN, update = Num 0, build = Num 0 \<rparr>
   \<and> parseInt ''x7'' = NaN"
proof -
  have parts: "split CHR ''.'' ''1.x'' = [''1'', ''x'']"
    by simp
  have one: "parseInt ''1'' = Num 1"
    by code_simp
  have letter: "\<not> isWhiteSpace CHR ''x'' \<and> CHR ''x'' \<noteq> CHR ''+'' \<and> CHR ''x'' \<noteq> CHR ''-''
      \<and> \<not> isDigit 10 CHR ''x''"
    by (simp add: isWhiteSpace_def isDigit_def digitValue_def)
  from parseVersion_segments [of "''1.x''" "CHR ''x''" "[]"]
    parseVersion_segments [of "''1.x''" "CHR ''x''" "''7''"] letter
  show ?thesis
    by (simp add: Let_def parts one)
qed

section \<open>Properties of the version manager\<close>

subsection \<open>Migration\<close>

lemma not_threeParts_suffix: "threeParts key \<Longrightarrow> \<not> threeParts (key @ ''.000'')"
  by (simp add: threeParts_def length_split)

lemma not_threeParts_migrateKey: "\<not> threeParts (migrateKey key)"
  by (simp add: migrateKey_def not_threeParts_suffix)

lemma migrateKey_id: "\<not> threeParts key \<Longrightarrow> migrateKey key = key"
  by (simp add: migrateKey_def)

lemma fourParts_not_three: "fourParts key \<Longrightarrow> \<not> threeParts key"
  by (simp add: fourParts_def threeParts_def)

lemma update_fresh: "k \<notin> fst ` set al \<Longrightarrow> AList.update k v al = al @ [(k, v)]"
  by (induction al) auto

lemma set_update_subset: "set (AList.update k v al) \<subseteq> insert (k, v) (set al)"
  by (induction al) auto

lemma rebuild_Nil: "rebuild f g acc [] = acc"
  by (simp add: rebuild_def)

lemma rebuild_Cons: "rebuild f g acc ((k, v) # xs) = rebuild f g (AList.update (f k) (g v) acc) xs"
  by (simp add: rebuild_def)

lemma rebuild_distinct: "distinct (map fst acc) \<Longrightarrow> distinct (map fst (rebuild f g acc xs))"
  by (induction xs arbitrary: acc) (auto simp: rebuild_Nil rebuild_Cons distinct_update)

lemma rebuild_entries:
  "(k', v') \<in> set (rebuild f g acc xs) \<Longrightarrow>
     (k', v') \<in> set acc \<or> (\<exists>(k, v) \<in> set xs. k' = f k \<and> v' = g v)"
proof (induction xs arbitrary: acc)
  case Nil
  then show ?case by (simp add: rebuild_Nil)
next
  case (Cons x xs)
  obtain k v where x: "x = (k, v)" by (cases x)
  from Cons.prems have "(k', v') \<in> set (rebuild f g (AList.update (f k) (g v) acc) xs)"
    by (simp add: x rebuild_Cons)
  from Cons.IH [OF this] show ?case
  proof
    assume "(k', v') \<in> set (AList.update (f k) (g v) acc)"
    then have "(k', v') \<in> set acc \<or> (k', v') = (f k, g v)"
      using set_update_subset [of "f k" "g v" acc] by auto
    then show ?thesis by (auto simp: x)
  next
    assume "\<exists>(k, v) \<in> set xs. k' = f k \<and> v' = g v"
    then show ?thesis by auto
  qed
qed

lemma rebuild_id:
  "distinct (map fst (acc @ xs)) \<Longrightarrow> rebuild (\<lambda>k. k) (\<lambda>v. v) acc xs = acc @ xs"
proof (induction xs arbitrary: acc)
  case Nil
  then show ?case by (simp add: rebuild_Nil)
next
  case (Cons x xs)
  obtain k v where x: "x = (k, v)" by (cases x)
  from Cons.prems have fresh: "k \<notin> fst ` set acc" by (auto simp: x)
  from Cons.prems have "distinct (map fst ((acc @ [(k, v)]) @ xs))" by (simp add: x)
  from Cons.IH [OF this] fresh show ?case
    by (simp add: x rebuild_Cons update_fresh)
qed

lemma rebuild_cong:
  "(\<And>k v. (k, v) \<in> set xs \<Longrightarrow> f k = f' k \<and> g v = g' v) \<Longrightarrow>
     rebuild f g acc xs = rebuild f' g' acc xs"
  unfolding rebuild_def by (rule foldl_cong) auto


lemma rebuild_clean:
  assumes "\<And>k. \<not> P (f k)" and "\<And>v. \<not> Q (g v)"
  shows "list_all (\<lambda>(k, v). \<not> P k \<and> \<not> Q v) (rebuild f g [] xs)"
proof -
  have "\<not> P k' \<and> \<not> Q v'" if "(k', v') \<in> set (rebuild f g [] xs)" for k' v'
    using rebuild_entries [OF that] assms by auto
  then show ?thesis
    by (auto simp: list_all_iff)
qed

lemma rebuild_fixed:
  assumes "distinct (map fst xs)"
    and "\<And>k v. (k, v) \<in> set xs \<Longrightarrow> f k = k \<and> g v = v"
  shows "rebuild f g [] xs = xs"
proof -
  have "rebuild f g [] xs = rebuild (\<lambda>k. k) (\<lambda>v. v) [] xs"
    using assms(2) by (rule rebuild_cong)
  with assms(1) show ?thesis
    by (simp add: rebuild_id)
qed

lemma migrate_releases_rebuild:
  "foldl
     (\<lambda>migratedReleases (key, release).
        AList.update (if length (split CHR ''.'' key) = 3 then key @ ''.000'' else key)
          (release\<lparr> Release.version :=
             if length (split CHR ''.'' (Release.version release)) = 3
             then Release.version release @ ''.000''
             else Release.version release \<rparr>)
          migratedReleases)
     [] rs = rebuild migrateKey migrateRelease [] rs"
  by (simp add: rebuild_def migrateKey_def migrateRelease_def threeParts_def)

lemma migrate_changelog_rebuild:
  "foldl
     (\<lambda>migratedChangelog (key, value).
        AList.update (if length (split CHR ''.'' key) = 3 then key @ ''.000'' else key) value
          migratedChangelog)
     [] cl = rebuild migrateKey (\<lambda>value. value) [] cl"
  by (simp add: rebuild_def migrateKey_def threeParts_def)

lemma migrate_version:
  "(if v \<noteq> [] \<and> length (split CHR ''.'' v) = 3 then v @ ''.000'' else v) = migrateKey v"
  by (auto simp: migrateKey_def threeParts_def)

lemma migrateVersionFormat_alt:
  "migrateVersionFormat versionData =
     \<lparr> VersionDoc.version = migrateKey (VersionDoc.version versionData),
       major = VersionDoc.major versionData, minor = VersionDoc.minor versionData,
       update = VersionDoc.update versionData,
       build = (case VersionDoc.build versionData of None \<Rightarrow> 0 | Some b \<Rightarrow> b),
       changelog = rebuild migrateKey (\<lambda>value. value) [] (changelog versionData),
       releases = map_option (rebuild migrateKey migrateRelease []) (releases versionData) \<rparr>"
  by (simp add: migrateVersionFormat_def Let_def migrate_releases_rebuild
      migrate_changelog_rebuild migrate_version split: option.split)

lemma cleanReleases_rebuild: "cleanReleases (rebuild migrateKey migrateRelease [] rs)"
  unfolding cleanReleases_def
proof
  show "distinct (map fst (rebuild migrateKey migrateRelease [] rs))"
    by (simp add: rebuild_distinct)
  show "list_all (\<lambda>(key, release). \<not> threeParts key \<and> \<not> threeParts (Release.version release))
          (rebuild migrateKey migrateRelease [] rs)"
    by (rule rebuild_clean [where Q = "\<lambda>r. threeParts (Release.version r)"])
       (simp_all add: not_threeParts_migrateKey migrateRelease_def)
qed

lemma cleanChangelog_rebuild: "cleanChangelog (rebuild migrateKey (\<lambda>value. value) [] cl)"
  unfolding cleanChangelog_def
proof
  show "distinct (map fst (rebuild migrateKey (\<lambda>value. value) [] cl))"
    by (simp add: rebuild_distinct)
  have "list_all (\<lambda>(key, value). \<not> threeParts key \<and> \<not> False)
          (rebuild migrateKey (\<lambda>value. value) [] cl)"
    by (rule rebuild_clean [where Q = "\<lambda>v. False"]) (simp_all add: not_threeParts_migrateKey)
  then show "list_all (\<lambda>(key, value). \<not> threeParts key) (rebuild migrateKey (\<lambda>value. value) [] cl)"
    by (simp add: case_prod_unfold)
qed

lemma migrated_migrateVersionFormat: "migrated (migrateVersionFormat versionData)"
  by (simp add: migrated_def migrateVersionFormat_alt not_threeParts_migrateKey
      cleanChangelog_rebuild cleanReleases_rebuild split: option.split)

lemma cleanReleases_fixed:
  "cleanReleases rs \<Longrightarrow> rebuild migrateKey migrateRelease [] rs = rs"
  by (rule rebuild_fixed)
     (auto simp: cleanReleases_def list_all_iff migrateKey_id migrateRelease_def)

lemma cleanChangelog_fixed:
  "cleanChangelog cl \<Longrightarrow> rebuild migrateKey (\<lambda>value. value) [] cl = cl"
  by (rule rebuild_fixed) (auto simp: cleanChangelog_def list_all_iff migrateKey_id)

lemma migrateVersionFormat_fixed:
  assumes "migrated v"
  shows "migrateVersionFormat (asData v) = v"
proof -
  from assms have "rebuild migrateKey (\<lambda>value. value) [] (changelog v) = changelog v"
    by (simp add: migrated_def cleanChangelog_fixed)
  moreover from assms
  have "map_option (rebuild migrateKey migrateRelease []) (releases v) = releases v"
    by (cases "releases v") (simp_all add: migrated_def cleanReleases_fixed)
  moreover from assms have "migrateKey (VersionDoc.version v) = VersionDoc.version v"
    by (simp add: migrated_def migrateKey_id)
  ultimately show ?thesis
    by (simp add: migrateVersionFormat_alt asData_def)
qed

lemma alreadyMigrated_fixed:
  assumes "alreadyMigrated doc"
  shows "asData (migrateVersionFormat doc) = doc"
proof -
  from assms obtain b where b: "VersionDoc.build doc = Some b"
    by (auto simp: alreadyMigrated_def)
  define v :: VersionInfo where
    "v = \<lparr> VersionDoc.version = VersionDoc.version doc, major = VersionDoc.major doc,
           minor = VersionDoc.minor doc, update = VersionDoc.update doc, build = b,
           changelog = changelog doc, releases = releases doc \<rparr>"
  have doc: "asData v = doc"
    by (simp add: v_def asData_def b [symmetric])
  have "migrated v"
    using assms
    by (auto simp: alreadyMigrated_def migrated_def v_def cleanChangelog_def cleanReleases_def
        list_all_iff fourParts_not_three split: option.splits)
  then have "migrateVersionFormat (asData v) = v"
    by (rule migrateVersionFormat_fixed)
  with doc show ?thesis by simp
qed

text \<open>
  Claim C7. Migration is idempotent: migrating the result of a migration changes nothing,
  for every parsed document. On a document that is already migrated (build present, the
  top-level version, all changelog and release keys and all nested release versions
  4-part) the migration is a no-op.
\<close>

theorem migrateVersionFormat_idempotent:
  "migrateVersionFormat (asData (migrateVersionFormat doc)) = migrateVersionFormat doc
   \<and> (alreadyMigrated doc \<longrightarrow> asData (migrateVersionFormat doc) = doc)"
  by (simp add: migrateVersionFormat_fixed migrated_migrateVersionFormat alreadyMigrated_fixed)

text \<open>A document with two releases under 4-part keys is already migrated, and is kept.\<close>

theorem migrateVersionFormat_idempotent_witness:
  "alreadyMigrated ledgerTwo \<and> asData (migrateVersionFormat ledgerTwo) = ledgerTwo"
proof -
  have "alreadyMigrated ledgerTwo"
    by code_simp
  with migrateVersionFormat_idempotent [of ledgerTwo] show ?thesis
    by blast
qed

subsection \<open>The latest release\<close>

lemma sortBy_Cons: "sortBy cmp (x # xs) = insertBy cmp x (sortBy cmp xs)"
  by (simp add: sortBy_def)

lemma set_insertBy: "set (insertBy cmp x ys) = insert x (set ys)"
  by (induction ys) auto

lemma set_sortBy: "set (sortBy cmp xs) = set xs"
  by (induction xs) (simp_all add: sortBy_def set_insertBy)

lemma sortBy_Nil_iff: "sortBy cmp xs = [] \<longleftrightarrow> xs = []"
  using set_sortBy [of cmp xs] by (metis set_empty)

lemma hd_insertBy: "hd (insertBy cmp x ys) = (if ys = [] \<or> cmp x (hd ys) \<le> 0 then x else hd ys)"
  by (cases ys) auto

lemma hd_sortBy_mem: "xs \<noteq> [] \<Longrightarrow> hd (sortBy cmp xs) \<in> set xs"
  using set_sortBy [of cmp xs] sortBy_Nil_iff [of cmp xs] hd_in_set by blast

lemma hd_sortBy_latest:
  assumes after: "\<And>x. x \<in> set after \<Longrightarrow> cmp l x \<le> 0"
    and before: "\<And>x. x \<in> set before \<Longrightarrow> \<not> cmp x l \<le> 0"
  shows "hd (sortBy cmp (before @ l # after)) = l"
  using before
proof (induction before)
  case Nil
  show ?case
  proof (cases "after = []")
    case True
    then show ?thesis by (simp add: sortBy_def)
  next
    case False
    then have "hd (sortBy cmp after) \<in> set after" by (rule hd_sortBy_mem)
    then have "cmp l (hd (sortBy cmp after)) \<le> 0" by (rule after)
    then show ?thesis by (simp add: sortBy_Cons hd_insertBy)
  qed
next
  case (Cons b before)
  then have IH: "hd (sortBy cmp (before @ l # after)) = l" by simp
  have "sortBy cmp (before @ l # after) \<noteq> []" by (simp add: sortBy_Nil_iff)
  moreover have "\<not> cmp b l \<le> 0" using Cons.prems by simp
  ultimately show ?case
    by (simp add: sortBy_Cons hd_insertBy IH)
qed

lemma sortBy_latest:
  assumes "\<And>x. x \<in> set after \<Longrightarrow> cmp l x \<le> 0"
    and "\<And>x. x \<in> set before \<Longrightarrow> \<not> cmp x l \<le> 0"
  shows "\<exists>others. sortBy cmp (before @ l # after) = l # others"
proof -
  have "hd (sortBy cmp (before @ l # after)) = l"
    using assms by (rule hd_sortBy_latest)
  moreover have "sortBy cmp (before @ l # after) \<noteq> []"
    by (simp add: sortBy_Nil_iff)
  ultimately show ?thesis
    by (cases "sortBy cmp (before @ l # after)") auto
qed

lemma compareDates_entries:
  assumes "distinct (map fst rs)" "(a, ra) \<in> set rs" "(b, rb) \<in> set rs"
    and "getTime (date ra) = Num ta" "getTime (date rb) = Num tb"
  shows "compareDates getTime rs a b = tb - ta"
  using assms by (simp add: compareDates_def)

lemma latest_first:
  assumes d: "distinct (map fst rs)" and rs: "rs = before @ (lk, lr) # after"
    and b: "list_all (\<lambda>(key, release). strictlyOlder getTime release lr) before"
    and a: "list_all (\<lambda>(key, release). notNewer getTime release lr) after"
    and l: "getTime (date lr) \<noteq> NaN"
  shows "\<exists>others. sortBy (compareDates getTime rs) (map fst rs) = lk # others"
proof -
  from l obtain tl where tl: "getTime (date lr) = Num tl" by (cases "getTime (date lr)") auto
  have lk: "(lk, lr) \<in> set rs" by (simp add: rs)
  have "compareDates getTime rs lk x \<le> 0" if "x \<in> set (map fst after)" for x
  proof -
    from that obtain r where r: "(x, r) \<in> set after" by auto
    with a have "notNewer getTime r lr" by (auto simp: list_all_iff)
    then obtain tr where tr: "getTime (date r) = Num tr" "tr \<le> tl"
      by (auto simp: notNewer_def tl split: number.splits)
    from r have "(x, r) \<in> set rs" by (simp add: rs)
    with d lk tl tr show ?thesis by (simp add: compareDates_entries)
  qed
  moreover have "\<not> compareDates getTime rs x lk \<le> 0" if "x \<in> set (map fst before)" for x
  proof -
    from that obtain r where r: "(x, r) \<in> set before" by auto
    with b have "strictlyOlder getTime r lr" by (auto simp: list_all_iff)
    then obtain tr where tr: "getTime (date r) = Num tr" "tr < tl"
      by (auto simp: strictlyOlder_def tl split: number.splits)
    from r have "(x, r) \<in> set rs" by (simp add: rs)
    with d lk tl tr show ?thesis by (simp add: compareDates_entries)
  qed
  ultimately have "\<exists>others. sortBy (compareDates getTime rs) (map fst before @ lk # map fst after) = lk # others"
    by (rule sortBy_latest)
  then show ?thesis by (simp add: rs)
qed

lemma notNewer_trans:
  "notNewer getTime r l \<Longrightarrow> notNewer getTime l m \<Longrightarrow> notNewer getTime r m"
  by (auto simp: notNewer_def split: number.splits)

lemma strictlyOlder_notNewer: "strictlyOlder getTime r l \<Longrightarrow> notNewer getTime r l"
  by (auto simp: strictlyOlder_def notNewer_def split: number.splits)

lemma older_or_not:
  "getTime (date r) \<noteq> NaN \<Longrightarrow> getTime (date l) \<noteq> NaN \<Longrightarrow>
     strictlyOlder getTime r l \<or> notNewer getTime l r"
  by (auto simp: strictlyOlder_def notNewer_def split: number.splits)

lemma notNewer_refl: "getTime (date l) \<noteq> NaN \<Longrightarrow> notNewer getTime l l"
  by (auto simp: notNewer_def split: number.splits)

text \<open>
  Every non-empty map of releases whose dates parse has a latest release in this sense:
  the first one, in key order, among those with the maximal timestamp.
\<close>

lemma latest_exists:
  assumes "rs \<noteq> []" and "list_all (\<lambda>(key, release). getTime (date release) \<noteq> NaN) rs"
  shows "\<exists>before latestKey latest after.
           rs = before @ (latestKey, latest) # after \<and>
           list_all (\<lambda>(key, release). strictlyOlder getTime release latest) before \<and>
           list_all (\<lambda>(key, release). notNewer getTime release latest) after \<and>
           getTime (date latest) \<noteq> NaN"
  using assms
proof (induction rs)
  case Nil
  then show ?case by simp
next
  case (Cons x rs)
  obtain kx rx where x: "x = (kx, rx)" by (cases x)
  from Cons.prems have px: "getTime (date rx) \<noteq> NaN" by (simp add: x)
  show ?case
  proof (cases "rs = []")
    case True
    have "x # rs = [] @ (kx, rx) # []" by (simp add: True x)
    moreover have "list_all (\<lambda>(key, release). strictlyOlder getTime release rx) []"
      and "list_all (\<lambda>(key, release). notNewer getTime release rx) []" by simp_all
    ultimately show ?thesis using px by blast
  next
    case False
    with Cons obtain before lk l after where
      rs: "rs = before @ (lk, l) # after"
      and b: "list_all (\<lambda>(key, release). strictlyOlder getTime release l) before"
      and a: "list_all (\<lambda>(key, release). notNewer getTime release l) after"
      and pl: "getTime (date l) \<noteq> NaN"
      by auto
    from older_or_not [OF px pl] show ?thesis
    proof
      assume "strictlyOlder getTime rx l"
      with b have "list_all (\<lambda>(key, release). strictlyOlder getTime release l) ((kx, rx) # before)"
        by simp
      moreover have "x # rs = ((kx, rx) # before) @ (lk, l) # after"
        by (simp add: x rs)
      ultimately show ?thesis using a pl by blast
    next
      assume le: "notNewer getTime l rx"
      have "notNewer getTime r rx" if "(k, r) \<in> set rs" for k r
      proof -
        from that consider "(k, r) \<in> set before" | "r = l" | "(k, r) \<in> set after"
          by (auto simp: rs)
        then have "notNewer getTime r l"
        proof cases
          case 1
          with b have "strictlyOlder getTime r l" by (auto simp: list_all_iff)
          then show ?thesis by (rule strictlyOlder_notNewer)
        next
          case 2
          with pl show ?thesis by (simp add: notNewer_refl)
        next
          case 3
          with a show ?thesis by (auto simp: list_all_iff)
        qed
        then show ?thesis using le by (rule notNewer_trans)
      qed
      then have "list_all (\<lambda>(key, release). notNewer getTime release rx) rs"
        by (auto simp: list_all_iff)
      moreover have "x # rs = [] @ (kx, rx) # rs" by (simp add: x)
      moreover have "list_all (\<lambda>(key, release). strictlyOlder getTime release rx) []" by simp
      ultimately show ?thesis using px by blast
    qed
  qed
qed

subsection \<open>Merging, and the invariant of the ledger\<close>

lemma foldl_mergeUnique:
  "foldl (\<lambda>merged x. if x \<in> S then merged else merged @ [x]) acc new =
     acc @ filter (\<lambda>x. x \<notin> S) new"
  by (induction new arbitrary: acc) simp_all

lemma mergeUnique_filter:
  "mergeUnique existing new = existing @ filter (\<lambda>x. x \<notin> set existing) new"
  by (simp add: mergeUnique_def foldl_mergeUnique)

lemma migrated_defaultVersion: "migrated defaultVersion"
  by (simp add: migrated_def defaultVersion_def cleanChangelog_def cleanReleases_def threeParts_def)

lemma migrated_getCurrentVersion: "migrated (getCurrentVersion file)"
  by (cases "file") (simp_all add: getCurrentVersion_def migrated_defaultVersion
      migrated_migrateVersionFormat)

lemma incrementVersion_maps:
  "changelog (incrementVersion v t) = changelog v" "releases (incrementVersion v t) = releases v"
  by (cases t; simp add: reformat_def)+

lemma incrementVersion_version:
  "\<not> threeParts (VersionDoc.version (incrementVersion v t))"
  by (cases t) (simp_all add: reformat_def threeParts_def length_split_formatVersion4)

lemma cleanChangelog_update:
  assumes "cleanChangelog cl" "\<not> threeParts key"
  shows "cleanChangelog (AList.update key entry cl)"
proof -
  have "\<not> threeParts k" if "(k, e) \<in> set (AList.update key entry cl)" for k e
    using that set_update_subset [of key entry cl] assms
    by (auto simp: cleanChangelog_def list_all_iff)
  with assms(1) show ?thesis
    by (auto simp: cleanChangelog_def list_all_iff distinct_update)
qed

lemma cleanReleases_update:
  assumes "cleanReleases rs" "\<not> threeParts key" "\<not> threeParts (Release.version release)"
  shows "cleanReleases (AList.update key release rs)"
proof -
  have "\<not> threeParts k \<and> \<not> threeParts (Release.version r)"
    if "(k, r) \<in> set (AList.update key release rs)" for k r
    using that set_update_subset [of key release rs] assms
    by (auto simp: cleanReleases_def list_all_iff)
  with assms(1) show ?thesis
    by (auto simp: cleanReleases_def list_all_iff distinct_update)
qed

lemma set_delete_subset: "set (AList.delete key al) \<subseteq> set al"
  by (auto simp: AList.delete_eq)

lemma cleanReleases_delete: "cleanReleases rs \<Longrightarrow> cleanReleases (AList.delete key rs)"
  using set_delete_subset [of key rs]
  by (auto simp: cleanReleases_def list_all_iff distinct_delete)

lemma cleanReleases_Nil: "cleanReleases []"
  by (simp add: cleanReleases_def)

lemma consolidate_version: "Release.version (consolidate now newVersion info latestRelease) = newVersion"
  by (simp add: consolidate_def Let_def split: option.split)

lemma migrated_createNewRelease:
  assumes "migrated v"
  shows "migrated (createNewRelease now v info t)"
proof -
  from assms have v: "\<not> threeParts (VersionDoc.version v)" by (simp add: migrated_def)
  from assms have "cleanReleases (case releases v of None \<Rightarrow> [] | Some rs \<Rightarrow> rs)"
    by (simp add: migrated_def cleanReleases_Nil split: option.splits)
  then show ?thesis
    using assms v
    by (simp add: createNewRelease_def Let_def migrated_def cleanReleases_update)
qed

lemma migrated_releases: "migrated v \<Longrightarrow> cleanReleases rs \<Longrightarrow> migrated (v\<lparr> releases := Some rs \<rparr>)"
  by (simp add: migrated_def)

lemma migrated_addReleaseInfo:
  assumes "migrated v"
  shows "migrated (addReleaseInfo getTime now v info t)"
proof -
  define rs where "rs = (case releases v of None \<Rightarrow> [] | Some rs \<Rightarrow> rs)"
  from assms have rs: "cleanReleases rs"
    by (simp add: rs_def migrated_def cleanReleases_Nil split: option.splits)
  from assms have ver: "\<not> threeParts (VersionDoc.version v)" by (simp add: migrated_def)
  have v': "migrated (v\<lparr> releases := Some rs \<rparr>)"
    using assms rs by (rule migrated_releases)
  have create: "migrated (createNewRelease now (v\<lparr> releases := Some rs \<rparr>) info t)"
    using v' by (rule migrated_createNewRelease)
  have cons:
    "migrated (v\<lparr> releases := Some (AList.update key (consolidate now (VersionDoc.version v) info l) rs) \<rparr>)"
    "migrated (v\<lparr> releases := Some (AList.delete key
       (AList.update (VersionDoc.version v) (consolidate now (VersionDoc.version v) info l)
         (AList.update key (consolidate now (VersionDoc.version v) info l) rs))) \<rparr>)"
    if "\<not> threeParts key" for key l
  proof -
    let ?r = "consolidate now (VersionDoc.version v) info l"
    have "\<not> threeParts (Release.version ?r)" using ver by (simp add: consolidate_version)
    with rs that ver have "cleanReleases (AList.update key ?r rs)"
      and "cleanReleases (AList.delete key (AList.update (VersionDoc.version v) ?r (AList.update key ?r rs)))"
      by (simp_all add: cleanReleases_update cleanReleases_delete)
    with assms show
      "migrated (v\<lparr> releases := Some (AList.update key ?r rs) \<rparr>)"
      "migrated (v\<lparr> releases := Some (AList.delete key
         (AList.update (VersionDoc.version v) ?r (AList.update key ?r rs))) \<rparr>)"
      by (simp_all add: migrated_def)
  qed
  have keys: "\<not> threeParts key" if "map_of rs key = Some l" for key l
    using rs map_of_SomeD [OF that] by (auto simp: cleanReleases_def list_all_iff)
  show ?thesis
    unfolding addReleaseInfo_def Let_def rs_def [symmetric]
    using create keys
    by (auto split: list.split option.split intro!: cons)
qed

lemma updateVersion_eq:
  "updateVersion getTime now file t changelogEntry releaseInfo =
     (let newVersion = incrementVersion (getCurrentVersion file) t;
          newVersion = newVersion\<lparr> changelog :=
            AList.update (VersionDoc.version newVersion) changelogEntry (changelog newVersion) \<rparr>;
          newVersion = (case releaseInfo of None \<Rightarrow> newVersion
                        | Some info \<Rightarrow> addReleaseInfo getTime now newVersion info t)
      in (newVersion, asData newVersion))"
proof -
  define nv where "nv = incrementVersion (getCurrentVersion file) t"
  have cur: "migrated (getCurrentVersion file)" by (rule migrated_getCurrentVersion)
  have nv: "migrated nv"
    using cur by (simp add: nv_def migrated_def incrementVersion_maps incrementVersion_version)
  then have nv1: "migrated (nv\<lparr> changelog :=
      AList.update (VersionDoc.version nv) changelogEntry (changelog nv) \<rparr>)"
    by (simp add: migrated_def cleanChangelog_update)
  then have "migrated (case releaseInfo of
        None \<Rightarrow> nv\<lparr> changelog := AList.update (VersionDoc.version nv) changelogEntry (changelog nv) \<rparr>
      | Some info \<Rightarrow> addReleaseInfo getTime now
          (nv\<lparr> changelog := AList.update (VersionDoc.version nv) changelogEntry (changelog nv) \<rparr>) info t)"
    by (cases releaseInfo) (simp_all add: migrated_addReleaseInfo)
  then show ?thesis
    unfolding updateVersion_def Let_def nv_def [symmetric]
    by (simp add: migrateVersionFormat_fixed)
qed

subsection \<open>Consolidation and creation of a release\<close>

lemma consolidate_merged: "consolidate now next info old = mergedRelease now next info old"
  by (simp add: consolidate_def mergedRelease_def Let_def mergeUnique_filter split: option.split)

text \<open>
  The set of existing entries is not extended while the loop runs: an entry that the
  request lists twice, and that the old list lacks, is pushed twice.
\<close>

lemma mergeUnique_repeats: "mergeUnique [''A''] [''B'', ''B''] = [''A'', ''B'', ''B'']"
  by (simp add: mergeUnique_def)

lemma distinct_merge:
  "distinct old \<Longrightarrow> distinct new \<Longrightarrow> distinct (old @ filter (\<lambda>c. c \<notin> set old) new)"
  by auto

lemma mergedRelease_distinct:
  assumes "distinct (ReleaseInfo.changes info)" and "distinct (entries (ReleaseInfo.technical info))"
  shows "distinct (Release.changes old) \<longrightarrow>
           distinct (Release.changes (mergedRelease now newKey info old))"
    and "distinct (entries (Release.technical old)) \<longrightarrow>
           distinct (entries (Release.technical (mergedRelease now newKey info old)))"
  using assms
  by (auto simp: mergedRelease_def Let_def entries_def split: option.splits)

lemma createNewRelease_created:
  "createNewRelease now v info t =
     v\<lparr> releases := Some (AList.update (VersionDoc.version v)
           (createdRelease now (VersionDoc.version v) info t) (releasesOf v)) \<rparr>"
  by (cases t) (simp_all add: createNewRelease_def createdRelease_def releasesOf_def Let_def)

lemma addReleaseInfo_consolidate:
  assumes "consolidateWithPrevious info = Some True" and "releases v = Some rs"
    and "sortBy (compareDates getTime rs) (map fst rs) = lk # others"
    and "map_of rs lk = Some l" and "Release.title l = ReleaseInfo.title info"
  shows "addReleaseInfo getTime now v info t =
     v\<lparr> releases := Some (moveRelease lk (VersionDoc.version v)
       (mergedRelease now (VersionDoc.version v) info l) rs) \<rparr>"
proof -
  from assms(4) have "rs \<noteq> []" by auto
  with assms show ?thesis
    by (simp add: addReleaseInfo_def Let_def consolidate_merged moveRelease_def)
qed

lemma addReleaseInfo_create:
  assumes "consolidateWithPrevious info \<noteq> Some True \<or> releasesOf v = [] \<or>
     (\<exists>lk l others. sortBy (compareDates getTime (releasesOf v)) (map fst (releasesOf v)) = lk # others
        \<and> map_of (releasesOf v) lk = Some l \<and> Release.title l \<noteq> ReleaseInfo.title info)"
  shows "addReleaseInfo getTime now v info t =
     v\<lparr> releases := Some (AList.update (VersionDoc.version v)
           (createdRelease now (VersionDoc.version v) info t) (releasesOf v)) \<rparr>"
  using assms
  by (auto simp: addReleaseInfo_def Let_def createNewRelease_created releasesOf_def
      split: option.splits list.splits)

lemma map_of_without:
  "key \<noteq> lk \<Longrightarrow> map_of (before @ (lk, l) # after) key = map_of (before @ after) key"
  by (simp add: map_add_def split: option.split)

lemma keys_delete: "fst ` set (AList.delete k al) = fst ` set al - {k}"
  by (induction al) auto

lemma moved_keys:
  "fst ` set (moveRelease lk k r rs0) = insert k (fst ` set rs0 - {lk})"
  by (auto simp: moveRelease_def keys_delete dom_update)

lemma moved_release:
  fixes before after :: "(string \<times> Release) list" and lk newKey :: string and l r :: Release
  assumes d: "distinct (map fst (before @ (lk, l) # after))"
  defines "rs \<equiv> moveRelease lk newKey r (before @ (lk, l) # after)"
  shows "distinct (map fst rs)" and "map_of rs newKey = Some r"
    and "lk \<noteq> newKey \<longrightarrow> map_of rs lk = None"
    and "\<forall>key. key \<noteq> newKey \<and> key \<noteq> lk \<longrightarrow> map_of rs key = map_of (before @ after) key"
    and "set (map fst rs) = insert newKey (set (map fst (before @ after)))"
    and "length rs \<le> length before + length after + 1"
proof -
  have "distinct (map fst (moveRelease lk newKey r rs0))"
    if "distinct (map fst rs0)" for rs0 :: "(string \<times> Release) list"
    using that by (simp add: moveRelease_def distinct_update distinct_delete)
  from this [OF d] show dr: "distinct (map fst rs)"
    by (simp only: rs_def)
  show "map_of rs newKey = Some r"
    by (simp add: rs_def moveRelease_def update_conv' delete_conv')
  show "lk \<noteq> newKey \<longrightarrow> map_of rs lk = None"
    by (simp add: rs_def moveRelease_def delete_conv')
  show "\<forall>key. key \<noteq> newKey \<and> key \<noteq> lk \<longrightarrow> map_of rs key = map_of (before @ after) key"
    by (simp add: rs_def moveRelease_def update_conv' delete_conv' map_of_without del: map_of_append)
  have "fst ` set (before @ (lk, l) # after) - {lk} = fst ` set (before @ after)"
    using d by auto
  with moved_keys [of lk newKey r "before @ (lk, l) # after"]
  show keys: "set (map fst rs) = insert newKey (set (map fst (before @ after)))"
    by (simp only: rs_def set_map)
  have "length rs = card (set (map fst rs))"
    using distinct_card [OF dr] by simp
  also have "\<dots> \<le> Suc (card (set (map fst (before @ after))))"
    unfolding keys by (simp add: card_insert_if)
  also have "\<dots> \<le> Suc (length (map fst (before @ after)))"
    using card_length [of "map fst (before @ after)"] by simp
  finally show "length rs \<le> length before + length after + 1" by simp
qed

text \<open>
  Claim C1 says that after a consolidation the document contains exactly one release
  with the title of the request. The consolidation touches only the latest release: in
  a ledger with two releases titled \<open>Fix login\<close>, the later one is merged and moved to
  the new key and the earlier one stays, so two releases carry the title afterwards.
\<close>

theorem consolidation_keeps_older_release:
  "consolidateWithPrevious loginInfo = Some True
   \<and> map (\<lambda>(key, release). (key, date release, Release.title release))
        (releasesOf (getCurrentVersion (Some ledgerTwo))) =
       [(''0.01.012.001'', ''2025-01-01T00:00:00.000Z'', ''Fix login''),
        (''0.01.012.002'', ''2025-01-02T00:00:00.000Z'', ''Fix login'')]
   \<and> ReleaseInfo.title loginInfo = ''Fix login''
   \<and> map (\<lambda>(key, release). (key, Release.title release))
        (releasesOf (fst (updateVersion sampleGetTime ''2025-01-03T00:00:00.000Z'' (Some ledgerTwo)
           Build ''Login fixed again'' (Some loginInfo)))) =
       [(''0.01.012.001'', ''Fix login''), (''0.01.012.003'', ''Fix login'')]"
  by code_simp

text \<open>
  Claim C1, amended. Let the request ask for consolidation and list no change and no
  technical note twice, let the stored releases be non-empty with parsing dates, and let
  the release with the latest date (the first one in key order among those with the
  maximal timestamp) carry the title of the request. Then after the call, in the
  returned document, which is also the saved one, exactly one release is keyed by the
  new canonical version, and it is the latest release merged: its version is the new
  canonical version, its date is now, its summary is the summary of the request, its
  changes are the old changes followed by the entries of the request that are not among
  the old changes, in order (without duplicates when the old list has none), its
  technical notes are merged the same way when the request has technical notes, and its
  impact score is computed by \<open>calculateImpactScore\<close> on the merged release. The old key
  is gone when it differs from the new one, the releases under all other keys are as
  before, whatever their title, and no release is added.
\<close>

theorem updateVersion_consolidation:
  assumes flag: "consolidateWithPrevious info = Some True"
    and stored: "releases (getCurrentVersion file) = Some (before @ (latestKey, latest) # after)"
    and older: "list_all (\<lambda>(key, release). strictlyOlder getTime release latest) before"
    and notNewer: "list_all (\<lambda>(key, release). notNewer getTime release latest) after"
    and parses: "getTime (date latest) \<noteq> NaN"
    and same: "Release.title latest = ReleaseInfo.title info"
    and unique: "distinct (ReleaseInfo.changes info)"
      "distinct (entries (ReleaseInfo.technical info))"
  shows
    "(let newKey = VersionDoc.version (incrementVersion (getCurrentVersion file) t);
          written = updateVersion getTime now file t changelogEntry (Some info);
          rs = releasesOf (fst written);
          merged = mergedRelease now newKey info latest
      in snd written = asData (fst written) \<and> VersionDoc.version (fst written) = newKey \<and>
         releases (fst written) \<noteq> None \<and> distinct (map fst rs) \<and>
         map_of rs newKey = Some merged \<and>
         (distinct (Release.changes latest) \<longrightarrow> distinct (Release.changes merged)) \<and>
         (distinct (entries (Release.technical latest)) \<longrightarrow>
            distinct (entries (Release.technical merged))) \<and>
         (latestKey \<noteq> newKey \<longrightarrow> map_of rs latestKey = None) \<and>
         (\<forall>key. key \<noteq> newKey \<and> key \<noteq> latestKey \<longrightarrow> map_of rs key = map_of (before @ after) key) \<and>
         set (map fst rs) = insert newKey (set (map fst (before @ after))) \<and>
         length rs \<le> length before + length after + 1)"
proof -
  define cur where "cur = getCurrentVersion file"
  define nv where "nv = incrementVersion cur t"
  define nv1 where "nv1 = nv\<lparr> changelog :=
      AList.update (VersionDoc.version nv) changelogEntry (changelog nv) \<rparr>"
  define rs0 where "rs0 = before @ (latestKey, latest) # after"
  have "migrated cur" unfolding cur_def by (rule migrated_getCurrentVersion)
  with stored have d: "distinct (map fst rs0)"
    by (simp add: migrated_def cleanReleases_def cur_def rs0_def)
  have rel: "releases nv1 = Some rs0"
    using stored by (simp add: nv1_def nv_def cur_def rs0_def incrementVersion_maps)
  have ver: "VersionDoc.version nv1 = VersionDoc.version nv"
    by (simp add: nv1_def)
  obtain others where sorted: "sortBy (compareDates getTime rs0) (map fst rs0) = latestKey # others"
    using latest_first [OF d rs0_def older notNewer parses] by blast
  have "(latestKey, latest) \<in> set rs0"
    by (simp add: rs0_def)
  with d have found: "map_of rs0 latestKey = Some latest"
    by (simp only: map_of_eq_Some_iff)
  have written: "updateVersion getTime now file t changelogEntry (Some info) =
      (addReleaseInfo getTime now nv1 info t, asData (addReleaseInfo getTime now nv1 info t))"
    by (simp add: updateVersion_eq Let_def nv1_def nv_def cur_def)
  let ?key = "VersionDoc.version nv"
  let ?merged = "mergedRelease now ?key info latest"
  let ?rs = "moveRelease latestKey ?key ?merged (before @ (latestKey, latest) # after)"
  have step: "addReleaseInfo getTime now nv1 info t = nv1\<lparr> releases := Some ?rs \<rparr>"
    using addReleaseInfo_consolidate [OF flag rel sorted found same, of now t]
    by (simp add: ver rs0_def)
  have rs: "releasesOf (nv1\<lparr> releases := Some ?rs \<rparr>) = ?rs"
    by (simp add: releasesOf_def)
  note moved = moved_release [where newKey = ?key and r = ?merged, OF d [unfolded rs0_def]]
  note no_repeats = mergedRelease_distinct [OF unique, of latest now ?key]
  show ?thesis
    unfolding Let_def written cur_def [symmetric] nv_def [symmetric] fst_conv snd_conv step rs
    using moved ver no_repeats by simp
qed

text \<open>
  The example of the specification: one release \<open>Fix login\<close> with changes \<open>A\<close>, and a build
  increment that consolidates changes \<open>A\<close> and \<open>B\<close> into it.
\<close>

theorem updateVersion_consolidation_witness:
  "consolidateWithPrevious loginInfo = Some True
   \<and> releases (getCurrentVersion (Some ledgerOne)) =
       Some [(''0.01.012.001'', fixLogin ''0.01.012.001'' ''2025-01-01T00:00:00.000Z'')]
   \<and> sampleGetTime (date (fixLogin ''0.01.012.001'' ''2025-01-01T00:00:00.000Z'')) \<noteq> NaN
   \<and> Release.title (fixLogin ''0.01.012.001'' ''2025-01-01T00:00:00.000Z'') = ReleaseInfo.title loginInfo
   \<and> distinct (ReleaseInfo.changes loginInfo) \<and> distinct (entries (ReleaseInfo.technical loginInfo))
   \<and> distinct (Release.changes (fixLogin ''0.01.012.001'' ''2025-01-01T00:00:00.000Z''))
   \<and> distinct (entries (Release.technical (fixLogin ''0.01.012.001'' ''2025-01-01T00:00:00.000Z'')))
   \<and> (let written = updateVersion sampleGetTime ''2025-01-03T00:00:00.000Z'' (Some ledgerOne) Build
                       ''Login fixed again'' (Some loginInfo);
            rs = releasesOf (fst written)
        in snd written = asData (fst written) \<and>
           VersionDoc.version (fst written) = ''0.01.012.002'' \<and>
           set (map fst rs) = {''0.01.012.002''} \<and> length rs \<le> 1 \<and>
           map_of rs ''0.01.012.001'' = None \<and>
           map_of rs ''0.01.012.002'' =
             Some \<lparr> Release.version = ''0.01.012.002'', date = ''2025-01-03T00:00:00.000Z'',
                    title = ''Fix login'', type = ''fix'', summary = ''S2'',
                    changes = [''A'', ''B''], technical = None, impactScore = Some (Num 30) \<rparr>)"
proof -
  let ?old = "fixLogin ''0.01.012.001'' ''2025-01-01T00:00:00.000Z''"
  have flag: "consolidateWithPrevious loginInfo = Some True"
    by (simp add: loginInfo_def)
  have stored: "releases (getCurrentVersion (Some ledgerOne)) = Some ([] @ (''0.01.012.001'', ?old) # [])"
    by code_simp
  have older: "list_all (\<lambda>(key, release). strictlyOlder sampleGetTime release ?old) []"
    and notNewer: "list_all (\<lambda>(key, release). notNewer sampleGetTime release ?old) []"
    by simp_all
  have parses: "sampleGetTime (date ?old) \<noteq> NaN"
    by (simp add: sampleGetTime_def fixLogin_def)
  have same: "Release.title ?old = ReleaseInfo.title loginInfo"
    by (simp add: fixLogin_def loginInfo_def)
  have unique: "distinct (ReleaseInfo.changes loginInfo)"
    "distinct (entries (ReleaseInfo.technical loginInfo))"
    by (simp_all add: loginInfo_def entries_def)
  have newKey: "VersionDoc.version (incrementVersion (getCurrentVersion (Some ledgerOne)) Build) = ''0.01.012.002''"
    by code_simp
  have merged: "mergedRelease ''2025-01-03T00:00:00.000Z'' ''0.01.012.002'' loginInfo ?old =
      \<lparr> Release.version = ''0.01.012.002'', date = ''2025-01-03T00:00:00.000Z'',
        title = ''Fix login'', type = ''fix'', summary = ''S2'',
        changes = [''A'', ''B''], technical = None, impactScore = Some (Num 30) \<rparr>"
    by code_simp
  note updateVersion_consolidation [OF flag stored older notNewer parses same unique,
      where t = Build and now = "''2025-01-03T00:00:00.000Z''" and changelogEntry = "''Login fixed again''",
      unfolded Let_def newKey merged]
  then show ?thesis
    using flag stored parses same unique by (simp add: Let_def fixLogin_def entries_def)
qed

text \<open>
  Claim C8 says that a creation leaves all previously existing releases unchanged. The
  new release is assigned at the key of the new canonical version; a release that is
  already stored under that key (here one added for the next build in advance) is
  replaced by it.
\<close>

theorem creation_replaces_release_at_new_key:
  "consolidateWithPrevious plainInfo = None
   \<and> releasesOf (getCurrentVersion (Some ledgerAhead)) = [(''0.01.012.002'', plannedWork)]
   \<and> map (\<lambda>(key, release). (key, Release.title release))
        (releasesOf (fst (updateVersion sampleGetTime ''2025-01-03T00:00:00.000Z'' (Some ledgerAhead)
           Build ''Another fix'' (Some plainInfo)))) =
       [(''0.01.012.002'', ''Unrelated fix'')]
   \<and> map_of (releasesOf (fst (updateVersion sampleGetTime ''2025-01-03T00:00:00.000Z''
        (Some ledgerAhead) Build ''Another fix'' (Some plainInfo)))) ''0.01.012.002'' \<noteq> Some plannedWork"
  by code_simp

text \<open>
  Claim C8, amended. Whenever release information is given and the call does not
  consolidate (the flag is absent or false, or no release is stored, or the stored dates
  parse and the latest release has another title), the call assigns, at the key equal
  to the new canonical version, a new release with that version, the date now, the title,
  summary, changes and technical notes of the request, the type \<open>major\<close>, \<open>feature\<close>,
  \<open>fix\<close> or \<open>update\<close> for an increment of kind major, minor, build or update, and the
  impact score computed by \<open>calculateImpactScore\<close> on it. The releases stored under all
  other keys are unchanged; when the key is new, the new release is appended to them.
\<close>

theorem updateVersion_creation:
  assumes "consolidateWithPrevious info \<noteq> Some True
     \<or> releasesOf (getCurrentVersion file) = []
     \<or> (releasesOf (getCurrentVersion file) = before @ (latestKey, latest) # after
        \<and> list_all (\<lambda>(key, release). strictlyOlder getTime release latest) before
        \<and> list_all (\<lambda>(key, release). notNewer getTime release latest) after
        \<and> getTime (date latest) \<noteq> NaN
        \<and> Release.title latest \<noteq> ReleaseInfo.title info)"
  shows
    "(let newKey = VersionDoc.version (incrementVersion (getCurrentVersion file) t);
          stored = releasesOf (getCurrentVersion file);
          written = updateVersion getTime now file t changelogEntry (Some info);
          rs = releasesOf (fst written);
          created = createdRelease now newKey info t
      in snd written = asData (fst written) \<and> VersionDoc.version (fst written) = newKey \<and>
         releases (fst written) \<noteq> None \<and>
         rs = AList.update newKey created stored \<and>
         map_of rs newKey = Some created \<and>
         (\<forall>key. key \<noteq> newKey \<longrightarrow> map_of rs key = map_of stored key) \<and>
         (newKey \<notin> set (map fst stored) \<longrightarrow> rs = stored @ [(newKey, created)]))"
proof -
  define cur where "cur = getCurrentVersion file"
  define nv where "nv = incrementVersion cur t"
  define nv1 where "nv1 = nv\<lparr> changelog :=
      AList.update (VersionDoc.version nv) changelogEntry (changelog nv) \<rparr>"
  define rs0 where "rs0 = releasesOf cur"
  have "migrated cur" unfolding cur_def by (rule migrated_getCurrentVersion)
  then have d: "distinct (map fst rs0)"
    by (auto simp: migrated_def cleanReleases_def rs0_def releasesOf_def split: option.splits)
  have rel: "releasesOf nv1 = rs0"
    by (simp add: nv1_def nv_def rs0_def releasesOf_def incrementVersion_maps)
  have ver: "VersionDoc.version nv1 = VersionDoc.version nv"
    by (simp add: nv1_def)
  have cond: "consolidateWithPrevious info \<noteq> Some True \<or> releasesOf nv1 = [] \<or>
     (\<exists>lk l others. sortBy (compareDates getTime (releasesOf nv1)) (map fst (releasesOf nv1)) = lk # others
        \<and> map_of (releasesOf nv1) lk = Some l \<and> Release.title l \<noteq> ReleaseInfo.title info)"
    using assms
  proof (elim disjE)
    assume third: "releasesOf (getCurrentVersion file) = before @ (latestKey, latest) # after
        \<and> list_all (\<lambda>(key, release). strictlyOlder getTime release latest) before
        \<and> list_all (\<lambda>(key, release). notNewer getTime release latest) after
        \<and> getTime (date latest) \<noteq> NaN
        \<and> Release.title latest \<noteq> ReleaseInfo.title info"
    then have rs0: "rs0 = before @ (latestKey, latest) # after"
      by (simp add: rs0_def cur_def)
    from third obtain others where
      "sortBy (compareDates getTime rs0) (map fst rs0) = latestKey # others"
      using latest_first [OF d rs0] by blast
    moreover have "(latestKey, latest) \<in> set rs0" by (simp add: rs0)
    with d have "map_of rs0 latestKey = Some latest" by (simp only: map_of_eq_Some_iff)
    ultimately show ?thesis using third by (auto simp: rel)
  qed (simp_all add: rel rs0_def cur_def)
  have written: "updateVersion getTime now file t changelogEntry (Some info) =
      (addReleaseInfo getTime now nv1 info t, asData (addReleaseInfo getTime now nv1 info t))"
    by (simp add: updateVersion_eq Let_def nv1_def nv_def cur_def)
  let ?created = "createdRelease now (VersionDoc.version nv) info t"
  have step: "addReleaseInfo getTime now nv1 info t =
      nv1\<lparr> releases := Some (AList.update (VersionDoc.version nv) ?created rs0) \<rparr>"
    using addReleaseInfo_create [OF cond, of now t] by (simp add: ver rel)
  have rs: "releasesOf (nv1\<lparr> releases := Some (AList.update (VersionDoc.version nv) ?created rs0) \<rparr>) =
      AList.update (VersionDoc.version nv) ?created rs0"
    by (simp add: releasesOf_def)
  show ?thesis
    unfolding Let_def written cur_def [symmetric] nv_def [symmetric] rs0_def [symmetric]
      fst_conv snd_conv step rs
    by (simp add: ver update_conv' update_fresh)
qed

text \<open>
  The example of the specification: the same ledger and a request with another title give
  two releases, the original one unchanged and the new one.
\<close>

theorem updateVersion_creation_witness:
  "(releasesOf (getCurrentVersion (Some ledgerOne)) =
      [(''0.01.012.001'', fixLogin ''0.01.012.001'' ''2025-01-01T00:00:00.000Z'')]
    \<and> sampleGetTime (date (fixLogin ''0.01.012.001'' ''2025-01-01T00:00:00.000Z'')) \<noteq> NaN
    \<and> Release.title (fixLogin ''0.01.012.001'' ''2025-01-01T00:00:00.000Z'') \<noteq>
        ReleaseInfo.title unrelatedInfo)
   \<and> (let written = updateVersion sampleGetTime ''2025-01-03T00:00:00.000Z'' (Some ledgerOne) Build
                       ''Another fix'' (Some unrelatedInfo)
        in snd written = asData (fst written) \<and>
           VersionDoc.version (fst written) = ''0.01.012.002'' \<and>
           releasesOf (fst written) =
             [(''0.01.012.001'', fixLogin ''0.01.012.001'' ''2025-01-01T00:00:00.000Z''),
              (''0.01.012.002'',
               \<lparr> Release.version = ''0.01.012.002'', date = ''2025-01-03T00:00:00.000Z'',
                 title = ''Unrelated fix'', type = ''fix'', summary = ''S2'',
                 changes = [''A'', ''B''], technical = None, impactScore = Some (Num 30) \<rparr>)])"
proof -
  let ?old = "fixLogin ''0.01.012.001'' ''2025-01-01T00:00:00.000Z''"
  have stored: "releasesOf (getCurrentVersion (Some ledgerOne)) = [] @ (''0.01.012.001'', ?old) # []"
    by code_simp
  have parses: "sampleGetTime (date ?old) \<noteq> NaN"
    by (simp add: sampleGetTime_def fixLogin_def)
  have differs: "Release.title ?old \<noteq> ReleaseInfo.title unrelatedInfo"
    by (simp add: fixLogin_def unrelatedInfo_def)
  have third: "releasesOf (getCurrentVersion (Some ledgerOne)) = [] @ (''0.01.012.001'', ?old) # []
      \<and> list_all (\<lambda>(key, release). strictlyOlder sampleGetTime release ?old) []
      \<and> list_all (\<lambda>(key, release). notNewer sampleGetTime release ?old) []
      \<and> sampleGetTime (date ?old) \<noteq> NaN
      \<and> Release.title ?old \<noteq> ReleaseInfo.title unrelatedInfo"
    using stored parses differs by simp
  have newKey: "VersionDoc.version (incrementVersion (getCurrentVersion (Some ledgerOne)) Build) = ''0.01.012.002''"
    by code_simp
  have created: "createdRelease ''2025-01-03T00:00:00.000Z'' ''0.01.012.002'' unrelatedInfo Build =
      \<lparr> Release.version = ''0.01.012.002'', date = ''2025-01-03T00:00:00.000Z'',
        title = ''Unrelated fix'', type = ''fix'', summary = ''S2'',
        changes = [''A'', ''B''], technical = None, impactScore = Some (Num 30) \<rparr>"
    by code_simp
  note updateVersion_creation [OF disjI2 [OF disjI2 [OF third]],
      where t = Build and now = "''2025-01-03T00:00:00.000Z''" and changelogEntry = "''Another fix''",
      unfolded Let_def newKey created]
  then show ?thesis
    using stored parses differs by (simp add: Let_def)
qed

subsection \<open>Legacy keys in the saved document\<close>

text \<open>
  Claim C4 says that no 3-part key remains in the document saved by \<open>updateVersion\<close>,
  \<open>addChangelogEntry\<close> or \<open>addRelease\<close>, also for a release whose version has 3 parts.
  \<open>addRelease\<close> stores the release under its own version and writes the document as it
  is: with no file yet and a release of version \<open>1.02.003\<close>, the saved document has the
  3-part key \<open>1.02.003\<close>.
\<close>

theorem addRelease_keeps_legacy_key:
  "length (split CHR ''.'' (Release.version legacyRelease)) = 3
   \<and> releasesOf (addRelease None legacyRelease) = [(''1.02.003'', legacyRelease)]
   \<and> length (split CHR ''.'' ''1.02.003'') = 3"
  by code_simp

text \<open>
  The other two operations do keep 3-part keys out of the saved document:
  \<open>updateVersion\<close> migrates once more before it writes, and \<open>addChangelogEntry\<close> only
  adds the current version, which does not have three parts after the migration on load.
\<close>

lemma saved_document_migrated:
  "\<exists>v. migrated v \<and> snd (updateVersion getTime now file t changelogEntry releaseInfo) = asData v"
  by (auto simp: updateVersion_def Let_def intro: migrated_migrateVersionFormat)

lemma addChangelogEntry_migrated:
  "\<exists>v. migrated v \<and> addChangelogEntry file changelogEntry = asData v"
proof -
  have cur: "migrated (getCurrentVersion file)" by (rule migrated_getCurrentVersion)
  then have "migrated (getCurrentVersion file\<lparr> changelog :=
      AList.update (VersionDoc.version (getCurrentVersion file)) changelogEntry
        (changelog (getCurrentVersion file)) \<rparr>)"
    by (simp add: migrated_def cleanChangelog_update)
  then show ?thesis
    by (auto simp: addChangelogEntry_def Let_def)
qed

end
